theory Spec2Isabelle
  imports Main "HOL-Library.Sublist"
begin

section \<open>Strings of the Go runtime\<close>

text \<open>
  A Go string is a sequence of bytes; \<^typ>\<open>string\<close> (a list of 8-bit characters) is
  used for it. \<open>strings.HasPrefix\<close> compares bytes, \<open>strings.EqualFold\<close> compares the
  UTF-8 decoded code points under Unicode simple case folding.
\<close>

definition HasPrefix :: "string \<Rightarrow> string \<Rightarrow> bool" where
  \<comment> \<open>\<open>len(s) >= len(prefix) && s[:len(prefix)] == prefix\<close>\<close>
  "HasPrefix s pre = (length s \<ge> length pre \<and> take (length pre) s = pre)"

definition asciiLower :: "char \<Rightarrow> char" where
  \<comment> \<open>\<open>'A' <= c && c <= 'Z'\<close> gives \<open>c + 'a' - 'A'\<close>, every other byte is kept\<close>
  "asciiLower c =
     (let n = (of_char c :: nat) in if 65 \<le> n \<and> n \<le> 90 then char_of (n + 32) else c)"

text \<open>
  The folding key of a byte string. Two code points are equal under simple case folding
  when they lie on the same orbit of \<open>unicode.SimpleFold\<close>. The orbit of an ASCII letter
  is its upper and lower case form, with two exceptions that reach beyond ASCII: the orbit
  of \<open>K\<close>, \<open>k\<close> holds U+212A (the Kelvin sign, bytes E2 84 AA) and the orbit of \<open>S\<close>,
  \<open>s\<close> holds U+017F (the long s, bytes C5 BF). The key sends every member of such an
  orbit to the lower case ASCII letter; the bytes of any other code point are kept as
  they are. Both byte patterns start with a UTF-8 lead byte, so the decoder always
  starts a code point there.
\<close>

fun foldKey :: "string \<Rightarrow> string" where
  "foldKey [] = []"
| "foldKey [c] = [asciiLower c]"
| "foldKey [c, d] =
     (if c = CHR 0xC5 \<and> d = CHR 0xBF then ''s'' else asciiLower c # foldKey [d])"
| "foldKey (c # d # e # s) =
     (if c = CHR 0xC5 \<and> d = CHR 0xBF then CHR ''s'' # foldKey (e # s)
      else if c = CHR 0xE2 \<and> d = CHR 0x84 \<and> e = CHR 0xAA then CHR ''k'' # foldKey s
      else asciiLower c # foldKey (d # e # s))"

definition EqualFold :: "string \<Rightarrow> string \<Rightarrow> bool" where
  \<comment> \<open>\<open>strings.EqualFold(s, t)\<close> when one of the two strings is ASCII, as every table
      entry and every keyword is. For two arbitrary strings the library also equates case
      pairs of other code points beyond ASCII: that comparison is \<open>EqualFoldRunes\<close>
      below, and \<open>EqualFoldRunes_ascii\<close> proves that the two agree against an ASCII
      string\<close>
  "EqualFold s t = (foldKey s = foldKey t)"

section \<open>The service plan SKU tables\<close>

definition ServicePlanTypeAppPlan :: string where "ServicePlanTypeAppPlan = ''app''"
definition ServicePlanTypeConsumption :: string where "ServicePlanTypeConsumption = ''consumption''"
definition ServicePlanTypeElastic :: string where "ServicePlanTypeElastic = ''elastic''"
definition ServicePlanTypeFlexConsumption :: string where
  "ServicePlanTypeFlexConsumption = ''flexconsumption''"
definition ServicePlanTypeIsolated :: string where "ServicePlanTypeIsolated = ''isolated''"
definition ServicePlanTypePremium :: string where "ServicePlanTypePremium = ''premium''"
definition ServicePlanTypeWorkflow :: string where "ServicePlanTypeWorkflow = ''workflow''"

definition appServicePlanSkus :: "string list" where
  "appServicePlanSkus = [''B1'', ''B2'', ''B3'', ''S1'', ''S2'', ''S3'']"

definition freeSkus :: "string list" where
  "freeSkus = [''F1'']"

definition sharedSkus :: "string list" where
  "sharedSkus = [''D1'', ''SHARED'']"

definition consumptionSkus :: "string list" where
  "consumptionSkus = [''Y1'']"

definition premiumSkus :: "string list" where
  "premiumSkus =
     [''P1v2'', ''P2v2'', ''P3v2'',
      ''P0v3'', ''P1v3'', ''P2v3'', ''P3v3'',
      ''P1mv3'', ''P2mv3'', ''P3mv3'', ''P4mv3'', ''P5mv3'']"

definition flexConsumptionSkus :: "string list" where
  "flexConsumptionSkus = [''FC1'']"

definition elasticSkus :: "string list" where
  "elasticSkus = [''EP1'', ''EP2'', ''EP3'']"

definition isolatedSkus :: "string list" where
  "isolatedSkus =
     [''I1'', ''I2'', ''I3'',
      ''I1v2'', ''I2v2'', ''I3v2'', ''I4v2'', ''I5v2'', ''I6v2'',
      ''I1mv2'', ''I2mv2'', ''I3mv2'', ''I4mv2'', ''I5mv2'']"

definition workflowSkus :: "string list" where
  "workflowSkus = [''WS1'', ''WS2'', ''WS3'']"

definition AllKnownServicePlanSkus :: "string list" where
  "AllKnownServicePlanSkus =
     appServicePlanSkus @ consumptionSkus @ elasticSkus @ flexConsumptionSkus @ freeSkus @
     isolatedSkus @ premiumSkus @ sharedSkus @ workflowSkus"

section \<open>The classifier\<close>

text \<open>
  Every \<open>PlanIs...\<close> function runs the same loop over its table:
  \<open>for _, v := range table { if strings.EqualFold(input, v) { return true } }; return false\<close>.
\<close>

fun rangeEqualFold :: "string \<Rightarrow> string list \<Rightarrow> bool" where
  "rangeEqualFold input [] = False"
| "rangeEqualFold input (v # vs) = (if EqualFold input v then True else rangeEqualFold input vs)"

text \<open>A \<open>*string\<close> argument is a \<^typ>\<open>string option\<close>, \<open>nil\<close> being \<^const>\<open>None\<close>.\<close>

fun PlanIsConsumption :: "string option \<Rightarrow> bool" where
  "PlanIsConsumption None = False"
| "PlanIsConsumption (Some input) = rangeEqualFold input consumptionSkus"

definition PlanIsPremium :: "string \<Rightarrow> bool" where
  "PlanIsPremium input = (if input = [] then False else rangeEqualFold input premiumSkus)"

fun PlanIsFlexConsumption :: "string option \<Rightarrow> bool" where
  "PlanIsFlexConsumption None = False"
| "PlanIsFlexConsumption (Some input) = rangeEqualFold input flexConsumptionSkus"

fun PlanIsElastic :: "string option \<Rightarrow> bool" where
  "PlanIsElastic None = False"
| "PlanIsElastic (Some input) = rangeEqualFold input elasticSkus"

fun PlanIsIsolated :: "string option \<Rightarrow> bool" where
  "PlanIsIsolated None = False"
| "PlanIsIsolated (Some input) = rangeEqualFold input isolatedSkus"

fun PlanIsAppPlan :: "string option \<Rightarrow> bool" where
  "PlanIsAppPlan None = False"
| "PlanIsAppPlan (Some input) = rangeEqualFold input appServicePlanSkus"

fun PlanIsWorkflow :: "string option \<Rightarrow> bool" where
  "PlanIsWorkflow None = False"
| "PlanIsWorkflow (Some input) = rangeEqualFold input workflowSkus"

definition PlanTypeFromSku :: "string \<Rightarrow> string" where
  "PlanTypeFromSku input =
     (if PlanIsPremium input then ServicePlanTypePremium
      else if PlanIsWorkflow (Some input) then ServicePlanTypeWorkflow
      else if PlanIsConsumption (Some input) then ServicePlanTypeConsumption
      else if PlanIsFlexConsumption (Some input) then ServicePlanTypeFlexConsumption
      else if PlanIsElastic (Some input) then ServicePlanTypeElastic
      else if PlanIsIsolated (Some input) then ServicePlanTypeIsolated
      else if PlanIsAppPlan (Some input) then ServicePlanTypeAppPlan
      else ''unknown'')"

definition PlanSupportsZoneBalancing :: "string \<Rightarrow> bool" where
  "PlanSupportsZoneBalancing input =
     (let t = PlanTypeFromSku input in
      if t = ServicePlanTypePremium \<or> t = ServicePlanTypeElastic \<or> t = ServicePlanTypeWorkflow \<or>
         t = ServicePlanTypeConsumption \<or> t = ServicePlanTypeFlexConsumption \<or>
         t = ServicePlanTypeIsolated
      then True else False)"

definition PlanSupportsScaleOut :: "string \<Rightarrow> bool" where
  "PlanSupportsScaleOut plan = (HasPrefix plan ''EP'' \<or> HasPrefix plan ''WS'')"

subsection \<open>The classifier as the specification words it\<close>

text \<open>
  The specification's \<open>ClassifyPlan\<close>: a case-insensitive membership lookup against each
  category's list, in a fixed priority order; the first matching category, or
  \<open>unknown\<close> if no table matches.
\<close>

definition categoryOrder :: "(string list \<times> string) list" where
  "categoryOrder =
     [(premiumSkus, ServicePlanTypePremium),
      (workflowSkus, ServicePlanTypeWorkflow),
      (consumptionSkus, ServicePlanTypeConsumption),
      (flexConsumptionSkus, ServicePlanTypeFlexConsumption),
      (elasticSkus, ServicePlanTypeElastic),
      (isolatedSkus, ServicePlanTypeIsolated),
      (appServicePlanSkus, ServicePlanTypeAppPlan)]"

fun firstMatch :: "(string list \<times> string) list \<Rightarrow> string \<Rightarrow> string" where
  "firstMatch [] code = ''unknown''"
| "firstMatch ((table, category) # rest) code =
     (if list_ex (EqualFold code) table then category else firstMatch rest code)"

definition ClassifyPlan :: "string \<Rightarrow> string" where
  "ClassifyPlan code = firstMatch categoryOrder code"

text \<open>The tables that \<open>PlanTypeFromSku\<close> consults, in the order it consults them.\<close>

definition classifiedSkus :: "string list" where
  "classifiedSkus =
     premiumSkus @ workflowSkus @ consumptionSkus @ flexConsumptionSkus @ elasticSkus @
     isolatedSkus @ appServicePlanSkus"

section \<open>Case folding of the library, on code points\<close>

text \<open>
  \<open>strings.EqualFold\<close> between two arbitrary strings decodes both as UTF-8 and compares
  code point by code point. \<open>DecodeRuneInString\<close> is the decoder of package \<open>utf8\<close>: a
  byte that starts no valid sequence gives \<open>RuneError\<close> with width 1. The table \<open>first\<close>
  gives, for a lead byte, the length of its sequence and the range accepted for the second
  byte; the masks \<open>0x1F\<close>, \<open>0x0F\<close>, \<open>0x07\<close> and \<open>0x3F\<close> are written \<open>mod\<close> and the shifts
  as multiplications.
\<close>

definition RuneError :: nat where
  "RuneError = 0xFFFD"

definition first :: "nat \<Rightarrow> (nat \<times> nat \<times> nat) option" where
  "first s0 =
     (if 0xC2 \<le> s0 \<and> s0 \<le> 0xDF then Some (2, 0x80, 0xBF)
      else if s0 = 0xE0 then Some (3, 0xA0, 0xBF)
      else if 0xE1 \<le> s0 \<and> s0 \<le> 0xEC then Some (3, 0x80, 0xBF)
      else if s0 = 0xED then Some (3, 0x80, 0x9F)
      else if 0xEE \<le> s0 \<and> s0 \<le> 0xEF then Some (3, 0x80, 0xBF)
      else if s0 = 0xF0 then Some (4, 0x90, 0xBF)
      else if 0xF1 \<le> s0 \<and> s0 \<le> 0xF3 then Some (4, 0x80, 0xBF)
      else if s0 = 0xF4 then Some (4, 0x80, 0x8F)
      else None)"

definition DecodeRuneInString :: "string \<Rightarrow> nat \<times> nat" where
  "DecodeRuneInString s =
     (case s of
        [] \<Rightarrow> (RuneError, 0)
      | c0 # _ \<Rightarrow>
          let s0 = of_char c0 in
          if s0 < 0x80 then (s0, 1)
          else
            (case first s0 of
               None \<Rightarrow> (RuneError, 1)
             | Some (sz, lo, hi) \<Rightarrow>
                 if length s < sz then (RuneError, 1)
                 else
                   let s1 = of_char (s ! 1) in
                   if s1 < lo \<or> hi < s1 then (RuneError, 1)
                   else if sz \<le> 2 then (s0 mod 32 * 64 + s1 mod 64, 2)
                   else
                     let s2 = of_char (s ! 2) in
                     if s2 < 0x80 \<or> 0xBF < s2 then (RuneError, 1)
                     else if sz \<le> 3
                     then (s0 mod 16 * 4096 + s1 mod 64 * 64 + s2 mod 64, 3)
                     else
                       let s3 = of_char (s ! 3) in
                       if s3 < 0x80 \<or> 0xBF < s3 then (RuneError, 1)
                       else (s0 mod 8 * 262144 + s1 mod 64 * 4096 + s2 mod 64 * 64 +
                             s3 mod 64, 4)))"

text \<open>The code points of a string, as \<open>for _, r := range s\<close> yields them.\<close>

fun runes :: "string \<Rightarrow> nat list" where
  "runes [] = []"
| "runes (c # s) =
     (case DecodeRuneInString (c # s) of (r, width) \<Rightarrow> r # runes (drop (width - 1) s))"

text \<open>
  Two code points match when they lie on the same orbit of \<open>unicode.SimpleFold\<close>. The
  orbits that hold an ASCII character are written out: a letter with its other case, with
  U+212A on the orbit of \<open>k\<close> and U+017F on the orbit of \<open>s\<close>. The orbits of all other
  code points come from the Unicode tables, which are not among the sources: \<open>orbit\<close>
  gives a representative of the orbit of such a code point, and \<open>asciiOrbitsClosed\<close>
  says that it is never an ASCII character.
\<close>

definition simpleFoldKey :: "(nat \<Rightarrow> nat) \<Rightarrow> nat \<Rightarrow> nat" where
  "simpleFoldKey orbit r =
     (if r < 0x80 then (if 65 \<le> r \<and> r \<le> 90 then r + 32 else r)
      else if r = 0x17F then 115
      else if r = 0x212A then 107
      else orbit r)"

definition asciiOrbitsClosed :: "(nat \<Rightarrow> nat) \<Rightarrow> bool" where
  "asciiOrbitsClosed orbit = (\<forall>r. 0x80 \<le> r \<and> r \<noteq> 0x17F \<and> r \<noteq> 0x212A \<longrightarrow> 0x80 \<le> orbit r)"

text \<open>
  \<open>strings.EqualFold(s, t)\<close> for any two strings: the same number of code points, and
  matching code points at every position.
\<close>

definition EqualFoldRunes :: "(nat \<Rightarrow> nat) \<Rightarrow> string \<Rightarrow> string \<Rightarrow> bool" where
  "EqualFoldRunes orbit s t =
     (map (simpleFoldKey orbit) (runes s) = map (simpleFoldKey orbit) (runes t))"

text \<open>
  An orbit table that knows the letters of Latin-1 only: \<open>U+00C0\<close> to \<open>U+00DE\<close>, without
  the multiplication sign, lie on the orbit of the code point 32 above.
\<close>

definition latin1Orbit :: "nat \<Rightarrow> nat" where
  "latin1Orbit r = (if 0xC0 \<le> r \<and> r \<le> 0xDE \<and> r \<noteq> 0xD7 then r + 32 else r)"

section \<open>Resource identifiers\<close>

text \<open>An HTTP response, as far as the adapters read it; a nil response is \<^const>\<open>None\<close>.\<close>

record Response =
  StatusCode :: nat

text \<open>\<open>strings.Split(s, sep)\<close> for a separator of one byte.\<close>

fun Split :: "string \<Rightarrow> char \<Rightarrow> string list" where
  "Split [] sep = [[]]"
| "Split (c # s) sep =
     (if c = sep then [] # Split s sep
      else (case Split s sep of [] \<Rightarrow> [[c]] | x # xs \<Rightarrow> (c # x) # xs))"

text \<open>\<open>strings.Join(elems, sep)\<close> for a separator of one byte.\<close>

fun Join :: "string list \<Rightarrow> char \<Rightarrow> string" where
  "Join [] sep = []"
| "Join [x] sep = x"
| "Join (x # y # ys) sep = x @ sep # Join (y # ys) sep"

text \<open>
  Modelled from the spec: the identifier types \<open>TopicId\<close> and \<open>Subscriptions2Id\<close>
  belong to the SDK and are not among the sources. A resource identifier is a value with
  the fields subscription, resource group, parent-scope names and a leaf name: the
  identifier of a Service Bus topic, and that of a subscription of a topic, which has the
  fields of the topic's identifier and the subscription's name.
\<close>

record TopicId =
  SubscriptionId :: string
  ResourceGroupName :: string
  NamespaceName :: string
  TopicName :: string

record Subscriptions2Id = TopicId +
  SubscriptionName :: string

definition NewSubscriptions2ID ::
  "string \<Rightarrow> string \<Rightarrow> string \<Rightarrow> string \<Rightarrow> string \<Rightarrow> Subscriptions2Id" where
  "NewSubscriptions2ID subscriptionId resourceGroupName namespaceName topicName subscriptionName =
     \<lparr>SubscriptionId = subscriptionId, ResourceGroupName = resourceGroupName,
      NamespaceName = namespaceName, TopicName = topicName,
      SubscriptionName = subscriptionName\<rparr>"

text \<open>
  The identifier of a Purview account, of the package \<open>purview/parse\<close>. Its field
  \<open>SubscriptionId\<close> is written \<open>SubscriptionId'\<close> here, next to the topic identifier's.
\<close>

record AccountId =
  SubscriptionId' :: string
  ResourceGroup :: string
  Name :: string

section \<open>Errors and resource data\<close>

text \<open>
  A Go \<open>error\<close> is a value. \<open>Errorf\<close> keeps the format of a \<open>fmt.Errorf\<close>
  call, its arguments other than errors, and the error it wraps (the argument of
  \<open>%+v\<close>); \<open>RemoteError\<close> is an error that a remote client returned and
  \<open>SetError\<close> one that \<open>d.Set\<close> returned for the key.
\<close>

datatype arg =
    ArgString string
  | ArgSubscriptions2Id Subscriptions2Id
  | ArgAccountId AccountId

datatype error =
    MalformedIdentifierError string
  | RemoteError string
  | SetError string
  | Errorf string "arg list" "error option"

text \<open>
  The values that \<open>d.Get\<close> reads and \<open>d.Set\<close> writes. A nil pointer is written as
  \<open>NilV\<close>.
\<close>

datatype val =
    StringV string
  | BoolV bool
  | IntV int
  | NilV
  | ListV "val list"
  | MapV "(string \<times> val) list"

text \<open>
  \<open>schema.ResourceData\<close>: the stored resource ID (\<open>d.Id()\<close>, written \<open>Id'\<close>
  here) and the attributes by key. The schema
  is not part of the data here; \<open>accepts\<close> says which writes the schema takes, and
  \<open>d.Set\<close> returns an error and writes nothing for a value it does not take.
\<close>

record ResourceData =
  Id' :: string
  attrs :: "string \<rightharpoonup> val"
  accepts :: "string \<Rightarrow> val \<Rightarrow> bool"

definition SetId :: "ResourceData \<Rightarrow> string \<Rightarrow> ResourceData" where
  "SetId d v = d\<lparr>Id' := v\<rparr>"

definition Set :: "ResourceData \<Rightarrow> string \<Rightarrow> val \<Rightarrow> error option \<times> ResourceData" where
  "Set d key v =
     (if accepts d key v then (None, d\<lparr>attrs := (attrs d)(key \<mapsto> v)\<rparr>)
      else (Some (SetError key), d))"

definition Set' :: "ResourceData \<Rightarrow> string \<Rightarrow> val \<Rightarrow> ResourceData" where
  \<comment> \<open>a \<open>d.Set\<close> call whose error the caller drops\<close>
  "Set' d key v = snd (Set d key v)"

definition GetString :: "ResourceData \<Rightarrow> string \<Rightarrow> string" where
  \<comment> \<open>\<open>d.Get(key).(string)\<close> for a key of \<open>TypeString\<close>: an unset key reads as the
      empty string\<close>
  "GetString d key = (case attrs d key of Some (StringV s) \<Rightarrow> s | _ \<Rightarrow> [])"

definition ptrString :: "string option \<Rightarrow> val" where
  "ptrString p = (case p of None \<Rightarrow> NilV | Some s \<Rightarrow> StringV s)"

definition ptrBool :: "bool option \<Rightarrow> val" where
  "ptrBool p = (case p of None \<Rightarrow> NilV | Some b \<Rightarrow> BoolV b)"

section \<open>The identifier codec\<close>

text \<open>
  Modelled from the spec: \<open>subscriptions.ParseTopicID\<close> and the \<open>ID\<close> methods belong to
  the SDK and are not among the sources. \<open>Format\<close> rebuilds the canonical path from fixed
  keyword literals and the field values in fixed order, without validation.
\<close>

definition TopicID :: "'a TopicId_scheme \<Rightarrow> string" where
  "TopicID tid =
     ''/subscriptions/'' @ SubscriptionId tid @ ''/resourceGroups/'' @ ResourceGroupName tid @
     ''/providers/Microsoft.ServiceBus/namespaces/'' @ NamespaceName tid @
     ''/topics/'' @ TopicName tid"

definition Subscriptions2ID :: "Subscriptions2Id \<Rightarrow> string" where
  "Subscriptions2ID sid = TopicID sid @ ''/subscriptions/'' @ SubscriptionName sid"

text \<open>
  Modelled from the spec: \<open>Parse\<close> splits the path on \<open>/\<close>, validates the alternating
  keyword and value structure and extracts subscription, resource group and scoped names in
  order. It fails with \<open>MalformedIdentifierError\<close> when the segment count does not match
  the shape, a keyword segment does not match its literal (case-insensitively), or a value
  segment is empty. The canonical path starts with \<open>/\<close>, so the first of the eleven
  segments is empty.
\<close>

definition ParseTopicID :: "string \<Rightarrow> error + TopicId" where
  "ParseTopicID input =
     (let segs = Split input CHR ''/'' in
      if length segs = 11 \<and> segs ! 0 = [] \<and>
         EqualFold (segs ! 1) ''subscriptions'' \<and>
         EqualFold (segs ! 3) ''resourceGroups'' \<and>
         EqualFold (segs ! 5) ''providers'' \<and>
         EqualFold (segs ! 6) ''Microsoft.ServiceBus'' \<and>
         EqualFold (segs ! 7) ''namespaces'' \<and>
         EqualFold (segs ! 9) ''topics'' \<and>
         segs ! 2 \<noteq> [] \<and> segs ! 4 \<noteq> [] \<and> segs ! 8 \<noteq> [] \<and> segs ! 10 \<noteq> []
      then Inr \<lparr>SubscriptionId = segs ! 2, ResourceGroupName = segs ! 4,
                NamespaceName = segs ! 8, TopicName = segs ! 10\<rparr>
      else Inl (MalformedIdentifierError input))"

text \<open>
  A valid canonical path of a topic: eleven segments, the first empty, the keywords in
  their canonical spelling, no value segment empty.
\<close>

definition canonicalTopicPath :: "string \<Rightarrow> bool" where
  "canonicalTopicPath P =
     (let segs = Split P CHR ''/'' in
      length segs = 11 \<and> segs ! 0 = [] \<and>
      segs ! 1 = ''subscriptions'' \<and> segs ! 3 = ''resourceGroups'' \<and>
      segs ! 5 = ''providers'' \<and> segs ! 6 = ''Microsoft.ServiceBus'' \<and>
      segs ! 7 = ''namespaces'' \<and> segs ! 9 = ''topics'' \<and>
      segs ! 2 \<noteq> [] \<and> segs ! 4 \<noteq> [] \<and> segs ! 8 \<noteq> [] \<and> segs ! 10 \<noteq> [])"

text \<open>
  The malformed paths of eleven segments: one whose first segment is not empty or one of
  whose keyword segments does not match its literal, and one with an empty value segment.
\<close>

definition wrongKeyword :: "string \<Rightarrow> bool" where
  "wrongKeyword P =
     (let segs = Split P CHR ''/'' in
      length segs = 11 \<and>
      (segs ! 0 \<noteq> [] \<or>
       \<not> EqualFold (segs ! 1) ''subscriptions'' \<or>
       \<not> EqualFold (segs ! 3) ''resourceGroups'' \<or>
       \<not> EqualFold (segs ! 5) ''providers'' \<or>
       \<not> EqualFold (segs ! 6) ''Microsoft.ServiceBus'' \<or>
       \<not> EqualFold (segs ! 7) ''namespaces'' \<or>
       \<not> EqualFold (segs ! 9) ''topics''))"

definition emptyValue :: "string \<Rightarrow> bool" where
  "emptyValue P =
     (let segs = Split P CHR ''/'' in
      length segs = 11 \<and>
      (segs ! 2 = [] \<or> segs ! 4 = [] \<or> segs ! 8 = [] \<or> segs ! 10 = []))"

section \<open>The Service Bus subscription data source\<close>

record SBSubscriptionProperties =
  AutoDeleteOnIdle :: "string option"
  DefaultMessageTimeToLive :: "string option"
  LockDuration :: "string option"
  DeadLetteringOnMessageExpiration :: "bool option"
  DeadLetteringOnFilterEvaluationExceptions :: "bool option"
  EnableBatchedOperations :: "bool option"
  RequiresSession :: "bool option"
  ForwardDeadLetteredMessagesTo :: "string option"
  ForwardTo :: "string option"
  MaxDeliveryCount :: "int option"

record SBSubscription =
  Properties :: "SBSubscriptionProperties option"

record GetOperationResponse =
  HttpResponse :: "Response option"
  Model :: "SBSubscription option"

text \<open>
  What the function reads from \<open>meta\<close> and from the packages around it: the
  subscriptions client's \<open>Get\<close> (its result and its error), the account's subscription
  ID, the feature flag \<open>features.FivePointOh()\<close> and \<open>response.WasNotFound\<close>.
\<close>

record ServiceBusMeta =
  SubscriptionsClient_Get :: "Subscriptions2Id \<Rightarrow> GetOperationResponse \<times> error option"
  Account_SubscriptionId :: string
  FivePointOh :: bool
  WasNotFound :: "Response option \<Rightarrow> bool"

text \<open>
  The first part of \<open>dataSourceServiceBusSubscriptionRead\<close>, up to the identifier that
  is passed to \<open>client.Get\<close>. The three names start as empty strings (\<open>var rgName string\<close>)
  and are assigned only inside the branch of a non-empty \<open>topic_id\<close>.
\<close>

definition dataSourceServiceBusSubscriptionRead_id ::
  "ServiceBusMeta \<Rightarrow> ResourceData \<Rightarrow> error + Subscriptions2Id" where
  "dataSourceServiceBusSubscriptionRead_id meta d =
     (let subscriptionId = Account_SubscriptionId meta;
          rgName = []; nsName = []; topicName = [];
          v = GetString d ''topic_id''
      in
      if v \<noteq> [] then
        (case ParseTopicID v of
           Inl err \<Rightarrow> Inl (Errorf ''parsing topic ID %q: %+v'' [ArgString v] (Some err))
         | Inr topicId \<Rightarrow>
             let rgName = ResourceGroupName topicId;
                 nsName = NamespaceName topicId;
                 topicName = TopicName topicId
             in
             if \<not> FivePointOh meta \<and> SubscriptionId topicId = [] then
               let rgName = GetString d ''resource_group_name'';
                   nsName = GetString d ''namespace_name'';
                   topicName = GetString d ''topic_name''
               in Inr (NewSubscriptions2ID subscriptionId rgName nsName topicName
                         (GetString d ''name''))
             else Inr (NewSubscriptions2ID subscriptionId rgName nsName topicName
                         (GetString d ''name'')))
      else Inr (NewSubscriptions2ID subscriptionId rgName nsName topicName
                  (GetString d ''name'')))"

definition setSubscriptionProperties ::
  "bool \<Rightarrow> SBSubscriptionProperties \<Rightarrow> ResourceData \<Rightarrow> ResourceData" where
  \<comment> \<open>the \<open>d.Set\<close> calls for a model with properties\<close>
  "setSubscriptionProperties fivePointOh props d0 =
     (let d = Set' d0 ''auto_delete_on_idle'' (ptrString (AutoDeleteOnIdle props));
          d = Set' d ''default_message_ttl'' (ptrString (DefaultMessageTimeToLive props));
          d = Set' d ''lock_duration'' (ptrString (LockDuration props));
          d = Set' d ''dead_lettering_on_message_expiration''
                (ptrBool (DeadLetteringOnMessageExpiration props));
          d = Set' d ''dead_lettering_on_filter_evaluation_error''
                (ptrBool (DeadLetteringOnFilterEvaluationExceptions props));
          d = Set' d ''batched_operations_enabled'' (ptrBool (EnableBatchedOperations props));
          d = Set' d ''requires_session'' (ptrBool (RequiresSession props));
          d = Set' d ''forward_dead_lettered_messages_to''
                (ptrString (ForwardDeadLetteredMessagesTo props));
          d = Set' d ''forward_to'' (ptrString (ForwardTo props));
          maxDeliveryCount = (case MaxDeliveryCount props of None \<Rightarrow> 0 | Some n \<Rightarrow> n);
          d = Set' d ''max_delivery_count'' (IntV maxDeliveryCount)
      in
      if \<not> fivePointOh
      then Set' d ''enable_batched_operations'' (ptrBool (EnableBatchedOperations props))
      else d)"

definition dataSourceServiceBusSubscriptionRead ::
  "ServiceBusMeta \<Rightarrow> ResourceData \<Rightarrow> error option \<times> ResourceData" where
  "dataSourceServiceBusSubscriptionRead meta d =
     (case dataSourceServiceBusSubscriptionRead_id meta d of
        Inl err \<Rightarrow> (Some err, d)
      | Inr sid \<Rightarrow>
          (case SubscriptionsClient_Get meta sid of
             (existing, Some err) \<Rightarrow>
               if WasNotFound meta (HttpResponse existing)
               then (Some (Errorf ''%s was not found'' [ArgSubscriptions2Id sid] None), d)
               else (Some (Errorf ''retrieving %s: %+v'' [ArgSubscriptions2Id sid] (Some err)), d)
           | (existing, None) \<Rightarrow>
               let d = SetId d (Subscriptions2ID sid) in
               (case Model existing of
                  None \<Rightarrow> (None, d)
                | Some model \<Rightarrow>
                    (case Properties model of
                       None \<Rightarrow> (None, d)
                     | Some props \<Rightarrow>
                         (None, setSubscriptionProperties (FivePointOh meta) props d)))))"


section \<open>The Purview account resource\<close>

text \<open>
  The account that \<open>client.Get\<close> returns: the HTTP response it embeds and the fields that
  \<open>resourcePurviewAccountRead\<close> reads. The SKU's field \<open>Name\<close> is written \<open>Name'\<close>
  here, next to the account identifier's.
\<close>

record AccountSku =
  Name' :: string
  Capacity :: "int option"

record Identity =
  PrincipalID :: "string option"
  TenantID :: "string option"
  Type :: string

record AccountPropertiesEndpoints =
  Catalog :: "string option"
  Guardian :: "string option"
  Scan :: "string option"

record AccountProperties =
  PublicNetworkAccess :: string
  Endpoints :: "AccountPropertiesEndpoints option"

record Account =
  Response :: "Response option"
  Location :: "string option"
  Sku :: "AccountSku option"
  Identity :: "Identity option"
  AccountProperties :: "AccountProperties option"
  Tags :: "(string \<times> string option) list"

record AccessKeys =
  AtlasKafkaPrimaryEndpoint :: "string option"
  AtlasKafkaSecondaryEndpoint :: "string option"

definition Enabled :: string where
  "Enabled = ''Enabled''"

text \<open>
  What the function reads from \<open>meta\<close> and from the packages around it: the accounts
  client's \<open>Get\<close> and \<open>ListKeys\<close> (result and error, by resource group and name),
  \<open>parse.AccountID\<close>, \<open>utils.ResponseWasNotFound\<close>, \<open>location.NormalizeNilable\<close> and
  \<open>tags.FlattenAndSet\<close>. None of them is among the sources; the function is modelled
  for any of them.
\<close>

record PurviewMeta =
  AccountID :: "string \<Rightarrow> error + AccountId"
  AccountsClient_Get :: "string \<Rightarrow> string \<Rightarrow> Account \<times> error option"
  AccountsClient_ListKeys :: "string \<Rightarrow> string \<Rightarrow> AccessKeys \<times> error option"
  ResponseWasNotFound :: "Response option \<Rightarrow> bool"
  NormalizeNilable :: "string option \<Rightarrow> string"
  FlattenAndSet :: "ResourceData \<Rightarrow> (string \<times> string option) list \<Rightarrow> error option \<times> ResourceData"

text \<open>The verb \<open>%d\<close> of \<open>fmt.Sprintf\<close>.\<close>

fun showNat :: "nat \<Rightarrow> string" where
  "showNat n =
     (if n < 10 then [char_of (48 + n)] else showNat (n div 10) @ [char_of (48 + n mod 10)])"

definition showInt :: "int \<Rightarrow> string" where
  "showInt i = (if i < 0 then CHR ''-'' # showNat (nat (- i)) else showNat (nat i))"

definition flattenPurviewSkuName :: "AccountSku option \<Rightarrow> string" where
  "flattenPurviewSkuName input =
     (case input of
        None \<Rightarrow> []
      | Some sku \<Rightarrow>
          (case Capacity sku of
             None \<Rightarrow> []
           | Some capacity \<Rightarrow> Name' sku @ ''_'' @ showInt capacity))"

definition flattenPurviewAccountIdentity :: "Identity option \<Rightarrow> val" where
  "flattenPurviewAccountIdentity identity =
     (case identity of
        None \<Rightarrow> ListV []
      | Some i \<Rightarrow>
          if Type i = ''None'' then ListV []
          else
            let principalId = (case PrincipalID i of None \<Rightarrow> [] | Some p \<Rightarrow> p);
                tenantId = (case TenantID i of None \<Rightarrow> [] | Some t \<Rightarrow> t)
            in ListV [MapV [(''type'', StringV (Type i)),
                            (''principal_id'', StringV principalId),
                            (''tenant_id'', StringV tenantId)]])"

definition setAccountProperties :: "Account \<Rightarrow> ResourceData \<Rightarrow> ResourceData" where
  \<comment> \<open>the block \<open>if props := resp.AccountProperties; props != nil\<close>\<close>
  "setAccountProperties resp d =
     (case AccountProperties resp of
        None \<Rightarrow> d
      | Some props \<Rightarrow>
          let d = Set' d ''public_network_enabled'' (BoolV (PublicNetworkAccess props = Enabled))
          in
          (case Endpoints props of
             None \<Rightarrow> d
           | Some endpoints \<Rightarrow>
               let d = Set' d ''catalog_endpoint'' (ptrString (Catalog endpoints));
                   d = Set' d ''guardian_endpoint'' (ptrString (Guardian endpoints))
               in Set' d ''scan_endpoint'' (ptrString (Scan endpoints))))"

definition resourcePurviewAccountRead ::
  "PurviewMeta \<Rightarrow> ResourceData \<Rightarrow> error option \<times> ResourceData" where
  "resourcePurviewAccountRead meta d0 =
     (case AccountID meta (Id' d0) of
        Inl err \<Rightarrow> (Some err, d0)
      | Inr aid \<Rightarrow>
          (case AccountsClient_Get meta (ResourceGroup aid) (Name aid) of
             (resp, Some err) \<Rightarrow>
               if ResponseWasNotFound meta (Response resp) then (None, SetId d0 [])
               else (Some (Errorf ''retrieving %s: %+v'' [ArgAccountId aid] (Some err)), d0)
           | (resp, None) \<Rightarrow>
               let d = Set' d0 ''name'' (StringV (Name aid));
                   d = Set' d ''resource_group_name'' (StringV (ResourceGroup aid));
                   d = Set' d ''location'' (StringV (NormalizeNilable meta (Location resp)));
                   d = Set' d ''sku_name'' (StringV (flattenPurviewSkuName (Sku resp)))
               in
               (case Set d ''identity'' (flattenPurviewAccountIdentity (Identity resp)) of
                  (Some err, d) \<Rightarrow> (Some (Errorf ''flattening `identity`: %+v'' [] (Some err)), d)
                | (None, d) \<Rightarrow>
                    let d = setAccountProperties resp d in
                    (case AccountsClient_ListKeys meta (ResourceGroup aid) (Name aid) of
                       (keys, Some err) \<Rightarrow>
                         (Some (Errorf ''retrieving Keys for %s: %+v'' [ArgAccountId aid]
                                  (Some err)), d)
                     | (keys, None) \<Rightarrow>
                         let d = Set' d ''atlas_kafka_endpoint_primary_connection_string''
                                   (ptrString (AtlasKafkaPrimaryEndpoint keys));
                             d = Set' d ''atlas_kafka_endpoint_secondary_connection_string''
                                   (ptrString (AtlasKafkaSecondaryEndpoint keys))
                         in FlattenAndSet meta d (Tags resp)))))"

section \<open>Example inputs\<close>

text \<open>
  A client whose \<open>Get\<close> finds every subscription with an empty model, before version
  5.0 of the provider; \<open>response.WasNotFound\<close> as a present response of status 404.
\<close>

definition statusNotFound :: "Response option \<Rightarrow> bool" where
  "statusNotFound resp = (case resp of None \<Rightarrow> False | Some r \<Rightarrow> StatusCode r = 404)"

definition preFiveMeta :: ServiceBusMeta where
  "preFiveMeta =
     \<lparr>SubscriptionsClient_Get =
        (\<lambda>sid. (\<lparr>HttpResponse = Some \<lparr>StatusCode = 200\<rparr>, Model = None\<rparr>, None)),
      Account_SubscriptionId = ''sub-0'',
      FivePointOh = False,
      WasNotFound = statusNotFound\<rparr>"

text \<open>A configuration that names the topic by the three legacy fields only.\<close>

definition legacyConfig :: ResourceData where
  "legacyConfig =
     \<lparr>Id' = [],
      attrs = [''name'' \<mapsto> StringV ''sub1'',
               ''resource_group_name'' \<mapsto> StringV ''rg1'',
               ''namespace_name'' \<mapsto> StringV ''ns1'',
               ''topic_name'' \<mapsto> StringV ''topic1''],
      accepts = (\<lambda>key v. True)\<rparr>"

text \<open>
  A configuration that gives both the composite identifier, of namespace \<open>ns-a\<close>, and
  the legacy fields, of namespace \<open>ns-b\<close>.
\<close>

definition bothConfig :: ResourceData where
  "bothConfig =
     \<lparr>Id' = [],
      attrs = [''name'' \<mapsto> StringV ''sub1'',
               ''topic_id'' \<mapsto> StringV
                 ''/subscriptions/sub-0/resourceGroups/rg-a/providers/Microsoft.ServiceBus/namespaces/ns-a/topics/topic-a'',
               ''resource_group_name'' \<mapsto> StringV ''rg-b'',
               ''namespace_name'' \<mapsto> StringV ''ns-b'',
               ''topic_name'' \<mapsto> StringV ''topic-b''],
      accepts = (\<lambda>key v. True)\<rparr>"

text \<open>
  A Purview client for a stored account that is gone: \<open>Get\<close> fails with the given status
  code. \<open>parse.AccountID\<close> is taken to succeed on the stored ID.
\<close>

definition goneAccount :: Account where
  "goneAccount =
     \<lparr>Response = None, Location = None, Sku = None, Identity = None,
      AccountProperties = None, Tags = []\<rparr>"

definition failingMeta :: "nat \<Rightarrow> PurviewMeta" where
  "failingMeta status =
     \<lparr>AccountID =
        (\<lambda>s. Inr \<lparr>SubscriptionId' = ''sub-0'', ResourceGroup = ''rg1'', Name = ''acc1''\<rparr>),
      AccountsClient_Get =
        (\<lambda>rg name. (goneAccount\<lparr>Response := Some \<lparr>StatusCode = status\<rparr>\<rparr>,
                      Some (RemoteError ''get failed''))),
      AccountsClient_ListKeys =
        (\<lambda>rg name. (\<lparr>AtlasKafkaPrimaryEndpoint = None, AtlasKafkaSecondaryEndpoint = None\<rparr>,
                      Some (RemoteError ''keys failed''))),
      ResponseWasNotFound = statusNotFound,
      NormalizeNilable = (\<lambda>l. case l of None \<Rightarrow> [] | Some s \<Rightarrow> s),
      FlattenAndSet = (\<lambda>d tags. (None, d))\<rparr>"

text \<open>The same client when \<open>Get\<close> succeeds and \<open>ListKeys\<close> fails.\<close>

definition keysFailingMeta :: PurviewMeta where
  "keysFailingMeta =
     (failingMeta 200)\<lparr>AccountsClient_Get :=
        (\<lambda>rg name. (goneAccount\<lparr>Response := Some \<lparr>StatusCode = 200\<rparr>\<rparr>, None))\<rparr>"

definition storedAccount :: ResourceData where
  "storedAccount =
     \<lparr>Id' = ''/subscriptions/sub-0/resourceGroups/rg1/providers/Microsoft.Purview/accounts/acc1'',
      attrs = Map.empty,
      accepts = (\<lambda>key v. True)\<rparr>"

section \<open>Properties of the classifier\<close>

subsection \<open>Strings\<close>

lemma HasPrefix_prefix: "HasPrefix s p \<longleftrightarrow> prefix p s"
  unfolding HasPrefix_def prefix_def
  by (metis append_eq_conv_conj append_take_drop_id le_add1 length_append)

lemma foldKey_Nil_iff: "foldKey s = [] \<longleftrightarrow> s = []"
  by (induction s rule: foldKey.induct) auto

lemma EqualFold_refl: "EqualFold s s"
  by (simp add: EqualFold_def)

lemma EqualFold_sym: "EqualFold s t \<Longrightarrow> EqualFold t s"
  by (simp add: EqualFold_def)

lemma EqualFold_trans: "EqualFold s t \<Longrightarrow> EqualFold t u \<Longrightarrow> EqualFold s u"
  by (simp add: EqualFold_def)

lemma EqualFold_Nil: "EqualFold [] v \<longleftrightarrow> v = []"
  using foldKey_Nil_iff [of v] by (auto simp: EqualFold_def)

text \<open>
  Lower-casing the ASCII letters of a string does not change its folding key: the bytes of
  the two code points beyond ASCII are not letters, and lower-casing twice is lower-casing
  once. So strings that differ in the case of ASCII letters only are equal under folding.
\<close>

lemma asciiLower_idem: "asciiLower (asciiLower c) = asciiLower c"
  by (auto simp: asciiLower_def Let_def)

lemma asciiLower_eq_high:
  assumes "(of_char h :: nat) \<ge> 128"
  shows "asciiLower c = h \<longleftrightarrow> c = h"
  using assms by (auto simp: asciiLower_def Let_def)

lemma asciiLower_C5: "asciiLower c = CHR 0xC5 \<longleftrightarrow> c = CHR 0xC5"
  by (rule asciiLower_eq_high) simp

lemma asciiLower_BF: "asciiLower c = CHR 0xBF \<longleftrightarrow> c = CHR 0xBF"
  by (rule asciiLower_eq_high) simp

lemma asciiLower_E2: "asciiLower c = CHR 0xE2 \<longleftrightarrow> c = CHR 0xE2"
  by (rule asciiLower_eq_high) simp

lemma asciiLower_84: "asciiLower c = CHR 0x84 \<longleftrightarrow> c = CHR 0x84"
  by (rule asciiLower_eq_high) simp

lemma asciiLower_AA: "asciiLower c = CHR 0xAA \<longleftrightarrow> c = CHR 0xAA"
  by (rule asciiLower_eq_high) simp

lemma foldKey_map_asciiLower: "foldKey (map asciiLower s) = foldKey s"
  by (induction s rule: foldKey.induct)
     (auto simp: asciiLower_idem asciiLower_C5 asciiLower_BF asciiLower_E2 asciiLower_84
        asciiLower_AA)

lemma EqualFold_ascii_case:
  assumes "map asciiLower s = map asciiLower t"
  shows "EqualFold s t"
proof -
  have "foldKey s = foldKey (map asciiLower s)"
    by (simp add: foldKey_map_asciiLower)
  also have "\<dots> = foldKey (map asciiLower t)"
    using assms by simp
  also have "\<dots> = foldKey t"
    by (simp add: foldKey_map_asciiLower)
  finally show ?thesis
    by (simp add: EqualFold_def)
qed

subsection \<open>The table loop\<close>

lemma rangeEqualFold_iff:
  "rangeEqualFold input table \<longleftrightarrow> (\<exists>v \<in> set table. EqualFold input v)"
  by (induction table) auto

lemma rangeEqualFold_append:
  "rangeEqualFold c (xs @ ys) \<longleftrightarrow> rangeEqualFold c xs \<or> rangeEqualFold c ys"
  by (induction xs) auto

lemma rangeEqualFold_cong:
  "EqualFold c c' \<Longrightarrow> rangeEqualFold c table = rangeEqualFold c' table"
  by (induction table) (auto simp: EqualFold_def)

text \<open>The empty-string test of \<open>PlanIsPremium\<close> changes nothing: no table entry is empty.\<close>

lemma PlanIsPremium_iff: "PlanIsPremium input \<longleftrightarrow> rangeEqualFold input premiumSkus"
  by (auto simp: PlanIsPremium_def rangeEqualFold_iff EqualFold_Nil premiumSkus_def)

lemmas ServicePlanType_defs =
  ServicePlanTypeAppPlan_def ServicePlanTypeConsumption_def ServicePlanTypeElastic_def
  ServicePlanTypeFlexConsumption_def ServicePlanTypeIsolated_def ServicePlanTypePremium_def
  ServicePlanTypeWorkflow_def

lemma PlanTypeFromSku_unknown_iff:
  "PlanTypeFromSku c = ''unknown'' \<longleftrightarrow> \<not> rangeEqualFold c classifiedSkus"
  by (simp add: PlanTypeFromSku_def PlanIsPremium_iff classifiedSkus_def
      rangeEqualFold_append ServicePlanType_defs)

lemma classified_not_unknown:
  assumes "c \<in> set classifiedSkus"
  shows "PlanTypeFromSku c \<noteq> ''unknown''"
proof -
  have "\<exists>v \<in> set classifiedSkus. EqualFold c v"
    using assms EqualFold_refl by blast
  then show ?thesis
    by (simp add: PlanTypeFromSku_unknown_iff rangeEqualFold_iff)
qed

section \<open>Properties of the identifier codec\<close>

lemma Split_not_Nil: "Split s sep \<noteq> []"
  by (induction s) (auto split: list.splits)

lemma Join_Cons_Cons: "Join ((c # x) # xs) sep = c # Join (x # xs) sep"
  by (cases xs) auto

text \<open>Joining the segments of a split gives the string back.\<close>

lemma Join_Split: "Join (Split s sep) sep = s"
proof (induction s)
  case Nil
  then show ?case by simp
next
  case (Cons c s)
  obtain x xs where sp: "Split s sep = x # xs"
    using Split_not_Nil [of s sep] by (cases "Split s sep") auto
  show ?case
  proof (cases "c = sep")
    case True
    with Cons sp show ?thesis by simp
  next
    case False
    with Cons sp show ?thesis by (simp add: Join_Cons_Cons)
  qed
qed

lemma length_11_nth:
  "length xs = 11 \<Longrightarrow>
   xs = [xs ! 0, xs ! 1, xs ! 2, xs ! 3, xs ! 4, xs ! 5, xs ! 6, xs ! 7, xs ! 8, xs ! 9, xs ! 10]"
  by (auto simp: list_eq_iff_nth_eq nth_Cons' less_Suc_eq numeral_eq_Suc)

lemma ParseTopicID_canonical:
  assumes "canonicalTopicPath P"
  shows "\<exists>tid. ParseTopicID P = Inr tid \<and> TopicID tid = P"
proof -
  define segs where "segs = Split P CHR ''/''"
  define sub rg ns topic where "sub = segs ! 2" and "rg = segs ! 4" and "ns = segs ! 8"
    and "topic = segs ! 10"
  have c: "length segs = 11" "segs ! 0 = []"
      "segs ! 1 = ''subscriptions''" "segs ! 3 = ''resourceGroups''"
      "segs ! 5 = ''providers''" "segs ! 6 = ''Microsoft.ServiceBus''"
      "segs ! 7 = ''namespaces''" "segs ! 9 = ''topics''"
      "sub \<noteq> []" "rg \<noteq> []" "ns \<noteq> []" "topic \<noteq> []"
    using assms
    by (simp_all add: canonicalTopicPath_def Let_def segs_def sub_def rg_def ns_def topic_def)
  let ?tid = "\<lparr>SubscriptionId = sub, ResourceGroupName = rg,
                NamespaceName = ns, TopicName = topic\<rparr>"
  have parse: "ParseTopicID P = Inr ?tid"
    using c
    by (simp add: ParseTopicID_def Let_def segs_def [symmetric] EqualFold_refl
        sub_def rg_def ns_def topic_def)
  have eq: "segs = [[], ''subscriptions'', sub, ''resourceGroups'', rg, ''providers'',
                ''Microsoft.ServiceBus'', ''namespaces'', ns, ''topics'', topic]"
    using length_11_nth [OF c(1)] c(2-8) unfolding sub_def rg_def ns_def topic_def by metis
  have "Join segs CHR ''/'' = TopicID ?tid"
    unfolding eq by (simp add: TopicID_def)
  moreover have "Join segs CHR ''/'' = P"
    by (simp add: segs_def Join_Split)
  ultimately show ?thesis
    using parse by auto
qed

text \<open>A parsed identifier has no empty field, and the empty string does not parse.\<close>

lemma ParseTopicID_Inr_fields:
  "ParseTopicID v = Inr tid \<Longrightarrow>
   SubscriptionId tid \<noteq> [] \<and> ResourceGroupName tid \<noteq> [] \<and>
   NamespaceName tid \<noteq> [] \<and> TopicName tid \<noteq> []"
  by (auto simp: ParseTopicID_def Let_def split: if_splits)

lemma ParseTopicID_Nil: "ParseTopicID [] = Inl (MalformedIdentifierError [])"
  by (simp add: ParseTopicID_def)

lemma ParseTopicID_Inl:
  "ParseTopicID P = Inl e \<Longrightarrow> e = MalformedIdentifierError P"
  by (auto simp: ParseTopicID_def Let_def split: if_splits)

section \<open>Properties of the resource data\<close>

text \<open>No write of an attribute changes the stored ID.\<close>

lemma Id_Set: "Id' (snd (Set d k v)) = Id' d"
  by (simp add: Set_def)

lemma Id_Set' [simp]: "Id' (Set' d k v) = Id' d"
  by (simp add: Set'_def Set_def)

lemma Id_setSubscriptionProperties [simp]:
  "Id' (setSubscriptionProperties f props d) = Id' d"
  by (simp add: setSubscriptionProperties_def Let_def)

lemma Id_setAccountProperties [simp]: "Id' (setAccountProperties resp d) = Id' d"
  by (simp add: setAccountProperties_def Let_def split: option.splits)

section \<open>Properties of the decoder and of case folding on code points\<close>

subsection \<open>The values of multi-byte sequences\<close>

lemma mod_in_block:
  fixes x :: nat
  assumes "k * m \<le> x" "x < k * m + m"
  shows "x mod m = x - k * m"
proof -
  have "x = (x - k * m) + k * m"
    using assms by simp
  then have "x mod m = (x - k * m) mod m"
    by (metis mod_mult_self1 mult.commute)
  also have "\<dots> = x - k * m"
    using assms by simp
  finally show ?thesis .
qed

lemma mod32: "192 \<le> (x::nat) \<Longrightarrow> x < 224 \<Longrightarrow> x mod 32 = x - 192"
  using mod_in_block [of 6 32 x] by simp

lemma mod64: "128 \<le> (x::nat) \<Longrightarrow> x < 192 \<Longrightarrow> x mod 64 = x - 128"
  using mod_in_block [of 2 64 x] by simp

lemma mod16: "224 \<le> (x::nat) \<Longrightarrow> x < 240 \<Longrightarrow> x mod 16 = x - 224"
  using mod_in_block [of 14 16 x] by simp

lemma mod8: "240 \<le> (x::nat) \<Longrightarrow> x < 248 \<Longrightarrow> x mod 8 = x - 240"
  using mod_in_block [of 30 8 x] by simp

lemma base_digits:
  fixes a b n m :: nat
  assumes "b < m" "a * m + b = n"
  shows "a = n div m \<and> b = n mod m"
  using assms by auto

lemma two_byte_value:
  fixes s0 s1 :: nat
  assumes "0xC2 \<le> s0" "s0 \<le> 0xDF" "0x80 \<le> s1" "s1 \<le> 0xBF"
  shows "128 \<le> s0 mod 32 * 64 + s1 mod 64"
    and "s0 mod 32 * 64 + s1 mod 64 < 2048"
    and "s0 mod 32 * 64 + s1 mod 64 = 383 \<Longrightarrow> s0 = 0xC5 \<and> s1 = 0xBF"
proof -
  have a: "s0 mod 32 = s0 - 192" using assms by (simp add: mod32)
  have b: "s1 mod 64 = s1 - 128" using assms by (simp add: mod64)
  show "128 \<le> s0 mod 32 * 64 + s1 mod 64"
    unfolding a b using assms by linarith
  show "s0 mod 32 * 64 + s1 mod 64 < 2048"
    unfolding a b using assms by linarith
  show "s0 = 0xC5 \<and> s1 = 0xBF" if "s0 mod 32 * 64 + s1 mod 64 = 383"
  proof -
    have lt: "s1 - 128 < 64" using assms by linarith
    have eq: "(s0 - 192) * 64 + (s1 - 128) = 383"
      using that unfolding a b .
    have "s0 - 192 = 383 div 64 \<and> s1 - 128 = 383 mod 64"
      using base_digits [OF lt eq] .
    then have "s0 - 192 = 5 \<and> s1 - 128 = 63"
      by simp
    then show ?thesis using assms by linarith
  qed
qed

lemma three_byte_value:
  fixes s0 s1 s2 :: nat
  assumes "first s0 = Some (3, lo, hi)" "lo \<le> s1" "s1 \<le> hi" "0x80 \<le> s2" "s2 \<le> 0xBF"
  shows "2048 \<le> s0 mod 16 * 4096 + s1 mod 64 * 64 + s2 mod 64"
    and "s0 mod 16 * 4096 + s1 mod 64 * 64 + s2 mod 64 = 8490 \<Longrightarrow>
           s0 = 0xE2 \<and> s1 = 0x84 \<and> s2 = 0xAA"
proof -
  have r: "(s0 = 0xE0 \<and> 0xA0 \<le> s1 \<and> s1 \<le> 0xBF) \<or>
           (0xE1 \<le> s0 \<and> s0 \<le> 0xEF \<and> 0x80 \<le> s1 \<and> s1 \<le> 0xBF)"
    using assms(1-3) by (auto simp: first_def split: if_splits)
  have a: "s0 mod 16 = s0 - 224" using r by (auto simp: mod16)
  have b: "s1 mod 64 = s1 - 128" using r by (auto simp: mod64)
  have c: "s2 mod 64 = s2 - 128" using assms by (simp add: mod64)
  show "2048 \<le> s0 mod 16 * 4096 + s1 mod 64 * 64 + s2 mod 64"
    unfolding a b c using r assms(4,5) by linarith
  show "s0 = 0xE2 \<and> s1 = 0x84 \<and> s2 = 0xAA"
    if "s0 mod 16 * 4096 + s1 mod 64 * 64 + s2 mod 64 = 8490"
  proof -
    have lt: "s2 - 128 < 64" "(s1 - 128) * 64 + (s2 - 128) < 4096"
      using r assms(4,5) by linarith+
    have "(s0 - 224) * 4096 + ((s1 - 128) * 64 + (s2 - 128)) = 8490"
      using that unfolding a b c by simp
    with lt(2) have hi: "s0 - 224 = 8490 div 4096 \<and> (s1 - 128) * 64 + (s2 - 128) = 8490 mod 4096"
      by (rule base_digits)
    then have "(s1 - 128) * 64 + (s2 - 128) = 298"
      by simp
    with lt(1) have "s1 - 128 = 298 div 64 \<and> s2 - 128 = 298 mod 64"
      by (rule base_digits)
    then have "s1 - 128 = 4 \<and> s2 - 128 = 42"
      by simp
    moreover have "s0 - 224 = 2"
      using hi by simp
    ultimately show ?thesis using r assms(4,5) by linarith
  qed
qed

lemma four_byte_value:
  fixes s0 s1 s2 s3 :: nat
  assumes "first s0 = Some (4, lo, hi)" "lo \<le> s1" "s1 \<le> hi"
  shows "65536 \<le> s0 mod 8 * 262144 + s1 mod 64 * 4096 + s2 mod 64 * 64 + s3 mod 64"
proof -
  have r: "(s0 = 0xF0 \<and> 0x90 \<le> s1 \<and> s1 \<le> 0xBF) \<or>
           (0xF1 \<le> s0 \<and> s0 \<le> 0xF4 \<and> 0x80 \<le> s1 \<and> s1 \<le> 0xBF)"
    using assms(1-3) by (auto simp: first_def split: if_splits)
  have a: "s0 mod 8 = s0 - 240" using r by (auto simp: mod8)
  have b: "s1 mod 64 = s1 - 128" using r by (auto simp: mod64)
  have "65536 \<le> s0 mod 8 * 262144 + s1 mod 64 * 4096"
    unfolding a b using r by linarith
  then show ?thesis by linarith
qed


subsection \<open>The decoder\<close>

lemma RuneError_props: "128 \<le> RuneError" "RuneError \<noteq> 383" "RuneError \<noteq> 8490"
  by (simp_all add: RuneError_def)

lemma first_sizes:
  assumes "first s0 = Some (sz, lo, hi)"
  shows "(sz = 2 \<and> 0xC2 \<le> s0 \<and> s0 \<le> 0xDF \<and> lo = 0x80 \<and> hi = 0xBF) \<or> sz = 3 \<or> sz = 4"
  using assms by (auto simp: first_def split: if_splits)

lemma DecodeRuneInString_ascii:
  "(of_char c :: nat) < 128 \<Longrightarrow> DecodeRuneInString (c # s) = (of_char c, 1)"
  by (simp add: DecodeRuneInString_def Let_def)

lemma DecodeRuneInString_long_s:
  "DecodeRuneInString (CHR 0xC5 # CHR 0xBF # s) = (0x17F, 2)"
  by (simp add: DecodeRuneInString_def first_def Let_def)

lemma DecodeRuneInString_kelvin:
  "DecodeRuneInString (CHR 0xE2 # CHR 0x84 # CHR 0xAA # s) = (0x212A, 3)"
  by (simp add: DecodeRuneInString_def first_def Let_def)

lemma DecodeRuneInString_cases:
  assumes "128 \<le> (of_char c :: nat)"
  obtains (err) "fst (DecodeRuneInString (c # s)) = RuneError"
  | (two) b1 t where "s = b1 # t" "0xC2 \<le> (of_char c :: nat)" "(of_char c :: nat) \<le> 0xDF"
      "0x80 \<le> (of_char b1 :: nat)" "(of_char b1 :: nat) \<le> 0xBF"
      "fst (DecodeRuneInString (c # s)) = of_char c mod 32 * 64 + of_char b1 mod 64"
  | (three) b1 b2 t lo hi where "s = b1 # b2 # t" "first (of_char c) = Some (3, lo, hi)"
      "lo \<le> (of_char b1 :: nat)" "(of_char b1 :: nat) \<le> hi"
      "0x80 \<le> (of_char b2 :: nat)" "(of_char b2 :: nat) \<le> 0xBF"
      "fst (DecodeRuneInString (c # s)) =
         of_char c mod 16 * 4096 + of_char b1 mod 64 * 64 + of_char b2 mod 64"
  | (four) b1 b2 b3 t lo hi where "s = b1 # b2 # b3 # t" "first (of_char c) = Some (4, lo, hi)"
      "lo \<le> (of_char b1 :: nat)" "(of_char b1 :: nat) \<le> hi"
      "fst (DecodeRuneInString (c # s)) =
         of_char c mod 8 * 262144 + of_char b1 mod 64 * 4096 + of_char b2 mod 64 * 64 +
         of_char b3 mod 64"
proof (cases "first (of_char c)")
  case None
  with assms have "fst (DecodeRuneInString (c # s)) = RuneError"
    by (simp add: DecodeRuneInString_def Let_def)
  then show ?thesis by (rule err)
next
  case (Some p)
  obtain sz lo hi where p: "p = (sz, lo, hi)"
    by (cases p)
  note f = Some [unfolded p]
  from first_sizes [OF f] consider "sz = 2" "0xC2 \<le> (of_char c :: nat)" "(of_char c :: nat) \<le> 0xDF"
      "lo = 0x80" "hi = 0xBF" | "sz = 3" | "sz = 4"
    by blast
  then show ?thesis
  proof cases
    case 1
    show ?thesis
    proof (cases s)
      case Nil
      with assms f 1 have "fst (DecodeRuneInString (c # s)) = RuneError"
        by (simp add: DecodeRuneInString_def Let_def)
      then show ?thesis by (rule err)
    next
      case (Cons b1 t)
      show ?thesis
      proof (cases "(of_char b1 :: nat) < 0x80 \<or> 0xBF < (of_char b1 :: nat)")
        case True
        with assms f 1 Cons have "fst (DecodeRuneInString (c # s)) = RuneError"
          by (auto simp: DecodeRuneInString_def Let_def)
        then show ?thesis by (rule err)
      next
        case False
        with assms f 1 Cons
        have "fst (DecodeRuneInString (c # s)) = of_char c mod 32 * 64 + of_char b1 mod 64"
          by (auto simp: DecodeRuneInString_def Let_def)
        with Cons 1 False show ?thesis
          by (intro two [of b1 t]) auto
      qed
    qed
  next
    case 2
    show ?thesis
    proof (cases s)
      case Nil
      with assms f 2 have "fst (DecodeRuneInString (c # s)) = RuneError"
        by (simp add: DecodeRuneInString_def Let_def)
      then show ?thesis by (rule err)
    next
      case c1: (Cons b1 t1)
      show ?thesis
      proof (cases t1)
        case Nil
        with assms f 2 c1 have "fst (DecodeRuneInString (c # s)) = RuneError"
          by (simp add: DecodeRuneInString_def Let_def)
        then show ?thesis by (rule err)
      next
        case c2: (Cons b2 t)
        show ?thesis
        proof (cases "(of_char b1 :: nat) < lo \<or> hi < (of_char b1 :: nat) \<or>
                      (of_char b2 :: nat) < 0x80 \<or> 0xBF < (of_char b2 :: nat)")
          case True
          with assms f 2 c1 c2 have "fst (DecodeRuneInString (c # s)) = RuneError"
            by (auto simp: DecodeRuneInString_def Let_def)
          then show ?thesis by (rule err)
        next
          case False
          with assms f 2 c1 c2
          have "fst (DecodeRuneInString (c # s)) =
                  of_char c mod 16 * 4096 + of_char b1 mod 64 * 64 + of_char b2 mod 64"
            by (auto simp: DecodeRuneInString_def Let_def)
          with c1 c2 2 f False show ?thesis
            by (intro three [of b1 b2 t lo hi]) auto
        qed
      qed
    qed
  next
    case 3
    show ?thesis
    proof (cases "\<exists>b1 b2 b3 t. s = b1 # b2 # b3 # t")
      case False
      then have "length (c # s) < 4"
        by (cases s; cases "tl s"; cases "tl (tl s)") auto
      with assms f 3 have "fst (DecodeRuneInString (c # s)) = RuneError"
        by (simp add: DecodeRuneInString_def Let_def)
      then show ?thesis by (rule err)
    next
      case True
      then obtain b1 b2 b3 t where s: "s = b1 # b2 # b3 # t"
        by blast
      show ?thesis
      proof (cases "(of_char b1 :: nat) < lo \<or> hi < (of_char b1 :: nat) \<or>
                    (of_char b2 :: nat) < 0x80 \<or> 0xBF < (of_char b2 :: nat) \<or>
                    (of_char b3 :: nat) < 0x80 \<or> 0xBF < (of_char b3 :: nat)")
        case True
        with assms f 3 s have "fst (DecodeRuneInString (c # s)) = RuneError"
          by (auto simp: DecodeRuneInString_def Let_def)
        then show ?thesis by (rule err)
      next
        case False
        with assms f 3 s
        have "fst (DecodeRuneInString (c # s)) =
                of_char c mod 8 * 262144 + of_char b1 mod 64 * 4096 + of_char b2 mod 64 * 64 +
                of_char b3 mod 64"
          by (auto simp: DecodeRuneInString_def Let_def)
        with s 3 f False show ?thesis
          by (intro four [of b1 b2 b3 t lo hi]) auto
      qed
    qed
  qed
qed

lemma DecodeRuneInString_high:
  assumes "128 \<le> (of_char c :: nat)"
  shows "128 \<le> fst (DecodeRuneInString (c # s))"
    and "fst (DecodeRuneInString (c # s)) = 0x17F \<Longrightarrow> c = CHR 0xC5 \<and> (\<exists>t. s = CHR 0xBF # t)"
    and "fst (DecodeRuneInString (c # s)) = 0x212A \<Longrightarrow>
           c = CHR 0xE2 \<and> (\<exists>t. s = CHR 0x84 # CHR 0xAA # t)"
proof -
  let ?r = "fst (DecodeRuneInString (c # s))"
  have "128 \<le> ?r \<and> (?r = 0x17F \<longrightarrow> c = CHR 0xC5 \<and> (\<exists>t. s = CHR 0xBF # t)) \<and>
        (?r = 0x212A \<longrightarrow> c = CHR 0xE2 \<and> (\<exists>t. s = CHR 0x84 # CHR 0xAA # t))"
    using assms
  proof (cases rule: DecodeRuneInString_cases [where s = s])
    case err
    then show ?thesis
      using RuneError_props by simp
  next
    case (two b1 t)
    note v = two_byte_value [OF two(2-5)]
    have "c = CHR 0xC5 \<and> b1 = CHR 0xBF" if "?r = 0x17F"
    proof -
      have "(of_char c :: nat) = 0xC5 \<and> (of_char b1 :: nat) = 0xBF"
        using v(3) that two(6) by simp
      then have "(of_char c :: nat) = of_char (CHR 0xC5) \<and> (of_char b1 :: nat) = of_char (CHR 0xBF)"
        by simp
      then show ?thesis
        by (simp only: of_char_eq_iff)
    qed
    moreover have "?r \<noteq> 0x212A"
      using v(2) two(6) by simp
    ultimately show ?thesis
      using v(1) two(1,6) by auto
  next
    case (three b1 b2 t lo hi)
    note v = three_byte_value [OF three(2-6)]
    have "c = CHR 0xE2 \<and> b1 = CHR 0x84 \<and> b2 = CHR 0xAA" if "?r = 0x212A"
    proof -
      have "(of_char c :: nat) = 0xE2 \<and> (of_char b1 :: nat) = 0x84 \<and> (of_char b2 :: nat) = 0xAA"
        using v(2) that three(7) by simp
      then have "(of_char c :: nat) = of_char (CHR 0xE2) \<and> (of_char b1 :: nat) = of_char (CHR 0x84)
          \<and> (of_char b2 :: nat) = of_char (CHR 0xAA)"
        by simp
      then show ?thesis
        by (simp only: of_char_eq_iff)
    qed
    moreover have "?r \<noteq> 0x17F" "128 \<le> ?r"
      using v(1) three(7) by simp_all
    ultimately show ?thesis
      using three(1) by auto
  next
    case (four b1 b2 b3 t lo hi)
    note v = four_byte_value [OF four(2-4), of "of_char b2" "of_char b3"]
    then show ?thesis
      using four(5) by simp
  qed
  then show "128 \<le> ?r"
    and "?r = 0x17F \<Longrightarrow> c = CHR 0xC5 \<and> (\<exists>t. s = CHR 0xBF # t)"
    and "?r = 0x212A \<Longrightarrow> c = CHR 0xE2 \<and> (\<exists>t. s = CHR 0x84 # CHR 0xAA # t)"
    by simp_all
qed

subsection \<open>The folding key against the code points\<close>

lemma foldKey_long_s: "foldKey (CHR 0xC5 # CHR 0xBF # s) = CHR ''s'' # foldKey s"
  by (cases s) simp_all

lemma foldKey_kelvin: "foldKey (CHR 0xE2 # CHR 0x84 # CHR 0xAA # s) = CHR ''k'' # foldKey s"
  by simp

lemma foldKey_other:
  assumes "\<not> (c = CHR 0xC5 \<and> (\<exists>t. s = CHR 0xBF # t))"
    and "\<not> (c = CHR 0xE2 \<and> (\<exists>t. s = CHR 0x84 # CHR 0xAA # t))"
  shows "foldKey (c # s) = asciiLower c # foldKey s"
proof (cases s)
  case Nil
  then show ?thesis by simp
next
  case c1: (Cons d t)
  show ?thesis
  proof (cases t)
    case Nil
    with c1 assms show ?thesis by auto
  next
    case (Cons e u)
    with c1 assms show ?thesis by auto
  qed
qed

lemma simpleFoldKey_ascii:
  "(of_char c :: nat) < 128 \<Longrightarrow> simpleFoldKey orbit (of_char c) = of_char (asciiLower c)"
  by (auto simp: simpleFoldKey_def asciiLower_def Let_def)

lemma asciiLower_ascii: "(of_char c :: nat) < 128 \<Longrightarrow> (of_char (asciiLower c) :: nat) < 128"
  by (auto simp: asciiLower_def Let_def)

lemma asciiLower_high: "128 \<le> (of_char c :: nat) \<Longrightarrow> asciiLower c = c"
  by (auto simp: asciiLower_def Let_def)

text \<open>
  The folding key of a string is a given ASCII string exactly when the code points of the
  string fold to the characters of that ASCII string, one by one.
\<close>

lemma foldKey_runes:
  assumes ok: "asciiOrbitsClosed orbit"
  shows "\<forall>x \<in> set w. (of_char x :: nat) < 128 \<Longrightarrow>
         map (simpleFoldKey orbit) (runes c) = map of_char w \<longleftrightarrow> foldKey c = w"
proof (induction c arbitrary: w rule: runes.induct)
  case 1
  show ?case by auto
next
  case (2 c s)
  show ?case
  proof (cases w)
    case Nil
    then show ?thesis
      using foldKey_Nil_iff [of "c # s"] by (auto split: prod.splits)
  next
    case (Cons x w')
    with "2.prems" have x: "(of_char x :: nat) < 128" and w': "\<forall>x \<in> set w'. (of_char x :: nat) < 128"
      by simp_all
    consider (ascii) "(of_char c :: nat) < 128"
      | (long_s) t where "c = CHR 0xC5" "s = CHR 0xBF # t"
      | (kelvin) t where "c = CHR 0xE2" "s = CHR 0x84 # CHR 0xAA # t"
      | (other) "128 \<le> (of_char c :: nat)" "\<not> (c = CHR 0xC5 \<and> (\<exists>t. s = CHR 0xBF # t))"
          "\<not> (c = CHR 0xE2 \<and> (\<exists>t. s = CHR 0x84 # CHR 0xAA # t))"
      by (cases "(of_char c :: nat) < 128") auto
    then show ?thesis
    proof cases
      case ascii
      have d: "DecodeRuneInString (c # s) = (of_char c, 1)"
        using ascii by (rule DecodeRuneInString_ascii)
      have ih: "map (simpleFoldKey orbit) (runes s) = map of_char w' \<longleftrightarrow> foldKey s = w'"
        using "2.IH" [OF d [symmetric], of w'] w' by simp
      have "c \<noteq> CHR 0xC5" "c \<noteq> CHR 0xE2"
        using ascii by auto
      then have f: "foldKey (c # s) = asciiLower c # foldKey s"
        by (intro foldKey_other) auto
      have "simpleFoldKey orbit (of_char c) = (of_char x :: nat) \<longleftrightarrow> asciiLower c = x"
        using ascii by (simp add: simpleFoldKey_ascii)
      then show ?thesis
        using d ih f Cons by simp
    next
      case (long_s t)
      have d: "DecodeRuneInString (c # s) = (0x17F, 2)"
        using long_s by (simp add: DecodeRuneInString_long_s)
      have ih: "map (simpleFoldKey orbit) (runes t) = map of_char w' \<longleftrightarrow> foldKey t = w'"
        using "2.IH" [OF d [symmetric], of w'] w' long_s by simp
      have "(115 :: nat) = of_char x \<longleftrightarrow> CHR ''s'' = x"
        using of_char_eq_iff [of "CHR ''s''" x, where ?'a = nat] by simp
      moreover have "simpleFoldKey orbit 0x17F = 115"
        by (simp add: simpleFoldKey_def)
      ultimately show ?thesis
        using d ih Cons long_s by (simp add: foldKey_long_s)
    next
      case (kelvin t)
      have d: "DecodeRuneInString (c # s) = (0x212A, 3)"
        using kelvin by (simp add: DecodeRuneInString_kelvin)
      have ih: "map (simpleFoldKey orbit) (runes t) = map of_char w' \<longleftrightarrow> foldKey t = w'"
        using "2.IH" [OF d [symmetric], of w'] w' kelvin by simp
      have "(107 :: nat) = of_char x \<longleftrightarrow> CHR ''k'' = x"
        using of_char_eq_iff [of "CHR ''k''" x, where ?'a = nat] by simp
      moreover have "simpleFoldKey orbit 0x212A = 107"
        by (simp add: simpleFoldKey_def)
      ultimately show ?thesis
        using d ih Cons kelvin by simp
    next
      case other
      let ?r = "fst (DecodeRuneInString (c # s))"
      have r: "128 \<le> ?r" "?r \<noteq> 0x17F" "?r \<noteq> 0x212A"
        using DecodeRuneInString_high [OF other(1), of s] other(2,3) by auto
      then have "128 \<le> simpleFoldKey orbit ?r"
        using ok by (simp add: simpleFoldKey_def asciiOrbitsClosed_def)
      then have l: "simpleFoldKey orbit ?r \<noteq> of_char x"
        using x by simp
      have "foldKey (c # s) = c # foldKey s"
        using foldKey_other [OF other(2,3)] asciiLower_high [OF other(1)] by simp
      moreover have "c \<noteq> x"
        using x other(1) by auto
      ultimately show ?thesis
        using l Cons by (auto split: prod.splits)
    qed
  qed
qed

lemma runes_ascii: "\<forall>x \<in> set v. (of_char x :: nat) < 128 \<Longrightarrow> runes v = map of_char v"
  by (induction v) (simp_all add: DecodeRuneInString_ascii)

lemma foldKey_ascii: "\<forall>x \<in> set v. (of_char x :: nat) < 128 \<Longrightarrow> foldKey v = map asciiLower v"
proof (induction v)
  case Nil
  then show ?case by simp
next
  case (Cons c v)
  then have "c \<noteq> CHR 0xC5" "c \<noteq> CHR 0xE2"
    by auto
  then have "foldKey (c # v) = asciiLower c # foldKey v"
    by (intro foldKey_other) auto
  with Cons show ?case by simp
qed

text \<open>
  Against an ASCII string, \<open>EqualFold\<close> on bytes is the comparison of the library on
  code points.
\<close>

lemma EqualFoldRunes_ascii:
  assumes "asciiOrbitsClosed orbit" and v: "\<forall>x \<in> set v. (of_char x :: nat) < 128"
  shows "EqualFoldRunes orbit c v \<longleftrightarrow> EqualFold c v"
proof -
  have "map (simpleFoldKey orbit) (runes v) = map of_char (map asciiLower v)"
    using v by (simp add: runes_ascii simpleFoldKey_ascii)
  moreover have "\<forall>x \<in> set (map asciiLower v). (of_char x :: nat) < 128"
    using v by (simp add: asciiLower_ascii)
  ultimately show ?thesis
    using foldKey_runes [OF assms(1), of "map asciiLower v" c] foldKey_ascii [OF v]
    by (simp add: EqualFoldRunes_def EqualFold_def)
qed

lemma rangeEqualFold_runes_cong:
  assumes "asciiOrbitsClosed orbit" and "EqualFoldRunes orbit c c'"
    and "\<forall>v \<in> set table. \<forall>x \<in> set v. (of_char x :: nat) < 128"
  shows "rangeEqualFold c table = rangeEqualFold c' table"
proof -
  have "EqualFold c v \<longleftrightarrow> EqualFold c' v" if "v \<in> set table" for v
  proof -
    have a: "\<forall>x \<in> set v. (of_char x :: nat) < 128"
      using assms(3) that by simp
    have "EqualFoldRunes orbit c v \<longleftrightarrow> EqualFoldRunes orbit c' v"
      using assms(2) by (simp add: EqualFoldRunes_def)
    then show ?thesis
      using EqualFoldRunes_ascii [OF assms(1) a] by simp
  qed
  then show ?thesis
    by (simp add: rangeEqualFold_iff)
qed

lemma tables_ascii:
  "\<forall>v \<in> set premiumSkus. \<forall>x \<in> set v. (of_char x :: nat) < 128"
  "\<forall>v \<in> set workflowSkus. \<forall>x \<in> set v. (of_char x :: nat) < 128"
  "\<forall>v \<in> set consumptionSkus. \<forall>x \<in> set v. (of_char x :: nat) < 128"
  "\<forall>v \<in> set flexConsumptionSkus. \<forall>x \<in> set v. (of_char x :: nat) < 128"
  "\<forall>v \<in> set elasticSkus. \<forall>x \<in> set v. (of_char x :: nat) < 128"
  "\<forall>v \<in> set isolatedSkus. \<forall>x \<in> set v. (of_char x :: nat) < 128"
  "\<forall>v \<in> set appServicePlanSkus. \<forall>x \<in> set v. (of_char x :: nat) < 128"
  by (simp_all add: premiumSkus_def workflowSkus_def consumptionSkus_def flexConsumptionSkus_def
      elasticSkus_def isolatedSkus_def appServicePlanSkus_def)

lemma classifiedSkus_ascii:
  "\<forall>v \<in> set classifiedSkus. \<forall>x \<in> set v. (of_char x :: nat) < 128"
  using tables_ascii by (auto simp: classifiedSkus_def)

text \<open>Codes that the library holds equal under case folding get the same category.\<close>

lemma PlanTypeFromSku_runes_cong:
  assumes "asciiOrbitsClosed orbit" and "EqualFoldRunes orbit c c'"
  shows "PlanTypeFromSku c = PlanTypeFromSku c'"
  using tables_ascii [THEN rangeEqualFold_runes_cong [OF assms]]
  by (simp add: PlanTypeFromSku_def PlanIsPremium_iff)

lemma asciiOrbitsClosed_latin1: "asciiOrbitsClosed latin1Orbit"
  by (simp add: asciiOrbitsClosed_def latin1Orbit_def)

subsection \<open>Which codes are classified\<close>

text \<open>
  C3, as the specification states it, fails: \<open>F1\<close> is in the free table, one of the tables
  of \<open>AllKnownServicePlanSkus\<close>, and \<open>PlanTypeFromSku\<close> returns \<open>unknown\<close> for it.
\<close>

theorem PlanTypeFromSku_F1_unknown:
  "''F1'' \<in> set freeSkus \<and> ''F1'' \<in> set AllKnownServicePlanSkus \<and>
   PlanTypeFromSku ''F1'' = ''unknown''"
  by code_simp

text \<open>
  C3 (amended): for every plan code of the seven tables that \<open>PlanTypeFromSku\<close> consults
  (premium, workflow, consumption, flex-consumption, elastic, isolated, app) the result is
  a category other than \<open>unknown\<close>; \<open>unknown\<close> is returned exactly when the code matches
  no entry of these seven tables under case folding. The free and the shared table are not
  consulted: their codes \<open>F1\<close>, \<open>D1\<close> and \<open>SHARED\<close> are \<open>unknown\<close>.
\<close>

theorem PlanTypeFromSku_unknown_classified:
  "(\<forall>c \<in> set classifiedSkus. PlanTypeFromSku c \<noteq> ''unknown'') \<and>
   (\<forall>c. PlanTypeFromSku c = ''unknown'' \<longleftrightarrow> \<not> (\<exists>v \<in> set classifiedSkus. EqualFold c v)) \<and>
   (\<forall>c \<in> set (freeSkus @ sharedSkus). PlanTypeFromSku c = ''unknown'')"
proof (intro conjI)
  show "\<forall>c \<in> set classifiedSkus. PlanTypeFromSku c \<noteq> ''unknown''"
    using classified_not_unknown by blast
  show "\<forall>c. PlanTypeFromSku c = ''unknown'' \<longleftrightarrow> \<not> (\<exists>v \<in> set classifiedSkus. EqualFold c v)"
    by (simp add: PlanTypeFromSku_unknown_iff rangeEqualFold_iff)
  show "\<forall>c \<in> set (freeSkus @ sharedSkus). PlanTypeFromSku c = ''unknown''"
    by code_simp
qed

theorem PlanTypeFromSku_unknown_classified_witness:
  "''EP1'' \<in> set classifiedSkus \<and> PlanTypeFromSku ''EP1'' \<noteq> ''unknown'' \<and>
   ''SHARED'' \<in> set (freeSkus @ sharedSkus) \<and> PlanTypeFromSku ''SHARED'' = ''unknown''"
proof -
  have a: "''EP1'' \<in> set classifiedSkus"
    by code_simp
  have b: "''SHARED'' \<in> set (freeSkus @ sharedSkus)"
    by code_simp
  show ?thesis
    using a b PlanTypeFromSku_unknown_classified by blast
qed

subsection \<open>The priority order\<close>

text \<open>
  C4: \<open>PlanTypeFromSku\<close> is the first-match lookup of the specification: it consults the
  tables in the order premium, workflow, consumption, flex-consumption, elastic, isolated,
  app, and returns the category of the first table that has the code, or \<open>unknown\<close>.
\<close>

theorem PlanTypeFromSku_first_match:
  "PlanTypeFromSku code = ClassifyPlan code \<and>
   map snd categoryOrder =
     [ServicePlanTypePremium, ServicePlanTypeWorkflow, ServicePlanTypeConsumption,
      ServicePlanTypeFlexConsumption, ServicePlanTypeElastic, ServicePlanTypeIsolated,
      ServicePlanTypeAppPlan]"
  by (simp add: PlanTypeFromSku_def PlanIsPremium_iff rangeEqualFold_iff ClassifyPlan_def
      categoryOrder_def list_ex_iff)

subsection \<open>Scale-out\<close>

text \<open>
  C5: \<open>PlanSupportsScaleOut\<close> is true exactly when the raw code starts with \<open>EP\<close> or
  with \<open>WS\<close>, whatever the category: it is true of \<open>EP2\<close>, and of the two codes \<open>EP9\<close>
  and \<open>XYZ123\<close>, both of category \<open>unknown\<close>, it is true of the first only.
\<close>

theorem PlanSupportsScaleOut_prefix:
  "(PlanSupportsScaleOut code \<longleftrightarrow> prefix ''EP'' code \<or> prefix ''WS'' code) \<and>
   PlanSupportsScaleOut ''EP2'' \<and>
   PlanTypeFromSku ''EP9'' = PlanTypeFromSku ''XYZ123'' \<and>
   PlanSupportsScaleOut ''EP9'' \<and> \<not> PlanSupportsScaleOut ''XYZ123''"
proof (intro conjI)
  show "PlanSupportsScaleOut code \<longleftrightarrow> prefix ''EP'' code \<or> prefix ''WS'' code"
    by (simp add: PlanSupportsScaleOut_def HasPrefix_prefix)
  show "PlanSupportsScaleOut ''EP2''"
    by (simp add: PlanSupportsScaleOut_def HasPrefix_def)
  show "PlanTypeFromSku ''EP9'' = PlanTypeFromSku ''XYZ123''"
    by code_simp
  show "PlanSupportsScaleOut ''EP9''"
    by (simp add: PlanSupportsScaleOut_def HasPrefix_def)
  show "\<not> PlanSupportsScaleOut ''XYZ123''"
    by (simp add: PlanSupportsScaleOut_def HasPrefix_def)
qed

subsection \<open>The premium table\<close>

text \<open>
  C6: the premium table holds the twelve codes \<open>P1v2\<close>, \<open>P2v2\<close>, \<open>P3v2\<close>, \<open>P0v3\<close>,
  \<open>P1v3\<close>, \<open>P2v3\<close>, \<open>P3v3\<close>, \<open>P1mv3\<close>, \<open>P2mv3\<close>, \<open>P3mv3\<close>, \<open>P4mv3\<close>, \<open>P5mv3\<close>;
  for each of them \<open>PlanTypeFromSku\<close> returns the premium category and
  \<open>PlanSupportsZoneBalancing\<close> returns true.
\<close>

theorem premiumSkus_premium_zone_balancing:
  "premiumSkus =
     [''P1v2'', ''P2v2'', ''P3v2'', ''P0v3'', ''P1v3'', ''P2v3'', ''P3v3'',
      ''P1mv3'', ''P2mv3'', ''P3mv3'', ''P4mv3'', ''P5mv3''] \<and>
   (\<forall>code \<in> set premiumSkus.
      PlanTypeFromSku code = ServicePlanTypePremium \<and> PlanSupportsZoneBalancing code)"
proof
  show "premiumSkus =
     [''P1v2'', ''P2v2'', ''P3v2'', ''P0v3'', ''P1v3'', ''P2v3'', ''P3v3'',
      ''P1mv3'', ''P2mv3'', ''P3mv3'', ''P4mv3'', ''P5mv3'']"
    by (simp add: premiumSkus_def)
next
  have t: "PlanTypeFromSku code = ServicePlanTypePremium" if "code \<in> set premiumSkus" for code
  proof -
    have "rangeEqualFold code premiumSkus"
      using that EqualFold_refl by (auto simp: rangeEqualFold_iff)
    then show ?thesis
      by (simp add: PlanTypeFromSku_def PlanIsPremium_iff)
  qed
  show "\<forall>code \<in> set premiumSkus.
      PlanTypeFromSku code = ServicePlanTypePremium \<and> PlanSupportsZoneBalancing code"
    using t by (simp add: PlanSupportsZoneBalancing_def)
qed

theorem premiumSkus_premium_zone_balancing_witness:
  "''P1v2'' \<in> set premiumSkus \<and> PlanTypeFromSku ''P1v2'' = ''premium'' \<and>
   PlanSupportsZoneBalancing ''P1v2''"
proof -
  have a: "''P1v2'' \<in> set premiumSkus"
    by (simp add: premiumSkus_def)
  show ?thesis
    using a premiumSkus_premium_zone_balancing by (auto simp: ServicePlanTypePremium_def)
qed

subsection \<open>Case\<close>

text \<open>
  C7: classification is case-insensitive. Two codes that \<open>strings.EqualFold\<close> holds
  equal, as UTF-8 strings under Unicode simple case folding, get the same category,
  whatever the orbits of the code points beyond ASCII are, as long as none of them but
  U+017F and U+212A folds to an ASCII character. Every membership test compares the code
  with a table entry in this way: against a table entry the comparison on bytes is the
  comparison on code points. Codes with the same folding key get the same category, and
  codes that differ in the case of ASCII letters only have the same folding key.
\<close>

theorem PlanTypeFromSku_case_insensitive:
  "(asciiOrbitsClosed orbit \<and> EqualFoldRunes orbit c c' \<longrightarrow>
      PlanTypeFromSku c = PlanTypeFromSku c') \<and>
   (asciiOrbitsClosed orbit \<and> v \<in> set classifiedSkus \<longrightarrow>
      (EqualFold c v \<longleftrightarrow> EqualFoldRunes orbit c v)) \<and>
   (EqualFold c c' \<longrightarrow> PlanTypeFromSku c = PlanTypeFromSku c') \<and>
   (map asciiLower c = map asciiLower c' \<longrightarrow> EqualFold c c')"
proof (intro conjI impI)
  assume "asciiOrbitsClosed orbit \<and> EqualFoldRunes orbit c c'"
  then show "PlanTypeFromSku c = PlanTypeFromSku c'"
    using PlanTypeFromSku_runes_cong by blast
next
  assume a: "asciiOrbitsClosed orbit \<and> v \<in> set classifiedSkus"
  then have "\<forall>x \<in> set v. (of_char x :: nat) < 128"
    using classifiedSkus_ascii by blast
  with a show "EqualFold c v \<longleftrightarrow> EqualFoldRunes orbit c v"
    using EqualFoldRunes_ascii [of orbit v c] by simp
next
  assume "EqualFold c c'"
  then show "PlanTypeFromSku c = PlanTypeFromSku c'"
    by (simp add: PlanTypeFromSku_def PlanIsPremium_iff rangeEqualFold_cong [of c c'])
next
  assume "map asciiLower c = map asciiLower c'"
  then show "EqualFold c c'"
    by (rule EqualFold_ascii_case)
qed

theorem PlanTypeFromSku_case_insensitive_witness:
  "asciiOrbitsClosed latin1Orbit \<and>
   EqualFoldRunes latin1Orbit [CHR 0xC3, CHR 0x89, CHR ''1''] [CHR 0xC3, CHR 0xA9, CHR ''1''] \<and>
   PlanTypeFromSku [CHR 0xC3, CHR 0x89, CHR ''1''] =
     PlanTypeFromSku [CHR 0xC3, CHR 0xA9, CHR ''1''] \<and>
   EqualFoldRunes latin1Orbit [CHR 0xFF] [CHR 0xFE] \<and>
   PlanTypeFromSku [CHR 0xFF] = PlanTypeFromSku [CHR 0xFE] \<and>
   EqualFoldRunes latin1Orbit ''p1MV3'' ''P1mv3'' \<and>
   ''WS1'' \<in> set classifiedSkus \<and>
   EqualFold [CHR ''W'', CHR 0xC5, CHR 0xBF, CHR ''1''] ''WS1'' \<and>
   EqualFoldRunes latin1Orbit [CHR ''W'', CHR 0xC5, CHR 0xBF, CHR ''1''] ''WS1'' \<and>
   PlanTypeFromSku [CHR ''W'', CHR 0xC5, CHR 0xBF, CHR ''1''] = PlanTypeFromSku ''WS1'' \<and>
   map asciiLower ''p1MV3'' = map asciiLower ''P1mv3'' \<and> ''p1MV3'' \<noteq> ''P1mv3'' \<and>
   EqualFold ''p1MV3'' ''P1mv3'' \<and>
   PlanTypeFromSku ''p1MV3'' = PlanTypeFromSku ''P1mv3''"
proof -
  note t = PlanTypeFromSku_case_insensitive
  have ok: "asciiOrbitsClosed latin1Orbit"
    by (rule asciiOrbitsClosed_latin1)
  have e: "EqualFoldRunes latin1Orbit [CHR 0xC3, CHR 0x89, CHR ''1'']
             [CHR 0xC3, CHR 0xA9, CHR ''1'']"
    by (simp add: EqualFoldRunes_def DecodeRuneInString_def first_def simpleFoldKey_def
        latin1Orbit_def)
  have f: "EqualFoldRunes latin1Orbit [CHR 0xFF] [CHR 0xFE]"
    by (simp add: EqualFoldRunes_def DecodeRuneInString_def first_def)
  have m: "''WS1'' \<in> set classifiedSkus"
    by (simp add: classifiedSkus_def workflowSkus_def)
  have s: "EqualFold [CHR ''W'', CHR 0xC5, CHR 0xBF, CHR ''1''] ''WS1''"
    by code_simp
  have a: "map asciiLower ''p1MV3'' = map asciiLower ''P1mv3''"
    by code_simp
  have b: "EqualFold ''p1MV3'' ''P1mv3''"
    using a t [of latin1Orbit "''p1MV3''" "''P1mv3''"] by blast
  have p: "''P1mv3'' \<in> set classifiedSkus"
    by (simp add: classifiedSkus_def premiumSkus_def)
  have 1: "PlanTypeFromSku [CHR 0xC3, CHR 0x89, CHR ''1''] =
     PlanTypeFromSku [CHR 0xC3, CHR 0xA9, CHR ''1'']"
    using ok e t [of latin1Orbit "[CHR 0xC3, CHR 0x89, CHR ''1'']" "[CHR 0xC3, CHR 0xA9, CHR ''1'']"]
    by blast
  have 2: "PlanTypeFromSku [CHR 0xFF] = PlanTypeFromSku [CHR 0xFE]"
    using ok f t [of latin1Orbit "[CHR 0xFF]" "[CHR 0xFE]"] by blast
  have 3: "EqualFoldRunes latin1Orbit [CHR ''W'', CHR 0xC5, CHR 0xBF, CHR ''1''] ''WS1''"
    using ok m s t [of latin1Orbit "[CHR ''W'', CHR 0xC5, CHR 0xBF, CHR ''1'']" _ "''WS1''"]
    by blast
  have 4: "PlanTypeFromSku [CHR ''W'', CHR 0xC5, CHR 0xBF, CHR ''1''] = PlanTypeFromSku ''WS1''"
    using s t [of latin1Orbit "[CHR ''W'', CHR 0xC5, CHR 0xBF, CHR ''1'']" "''WS1''"] by blast
  have 5: "EqualFoldRunes latin1Orbit ''p1MV3'' ''P1mv3''"
    using ok p b t [of latin1Orbit "''p1MV3''" _ "''P1mv3''"] by blast
  have 6: "PlanTypeFromSku ''p1MV3'' = PlanTypeFromSku ''P1mv3''"
    using b t [of latin1Orbit "''p1MV3''" "''P1mv3''"] by blast
  show ?thesis
    using ok e f m s a b 1 2 3 4 5 6 by simp
qed

text \<open>
  C9: scale-out is case-sensitive where classification is not. The lower case forms of
  the elastic and workflow codes are classified as elastic and as workflow, and
  \<open>PlanSupportsScaleOut\<close> is false for each of them.
\<close>

theorem PlanSupportsScaleOut_case_sensitive:
  "PlanTypeFromSku ''ep1'' = ServicePlanTypeElastic \<and> \<not> PlanSupportsScaleOut ''ep1'' \<and>
   PlanTypeFromSku ''ep2'' = ServicePlanTypeElastic \<and> \<not> PlanSupportsScaleOut ''ep2'' \<and>
   PlanTypeFromSku ''ep3'' = ServicePlanTypeElastic \<and> \<not> PlanSupportsScaleOut ''ep3'' \<and>
   PlanTypeFromSku ''ws1'' = ServicePlanTypeWorkflow \<and> \<not> PlanSupportsScaleOut ''ws1'' \<and>
   PlanTypeFromSku ''ws2'' = ServicePlanTypeWorkflow \<and> \<not> PlanSupportsScaleOut ''ws2'' \<and>
   PlanTypeFromSku ''ws3'' = ServicePlanTypeWorkflow \<and> \<not> PlanSupportsScaleOut ''ws3'' \<and>
   PlanSupportsScaleOut ''EP1'' \<and> PlanSupportsScaleOut ''WS2''"
  by code_simp

section \<open>The codec of topic identifiers\<close>

text \<open>
  C8: for every valid canonical path \<open>P\<close> of a topic, parsing succeeds and formatting the
  parsed identifier gives \<open>P\<close> back, byte for byte. A path with a wrong segment count, a
  wrong keyword or an empty value segment fails with \<open>MalformedIdentifierError\<close>, which
  is the only failure there is; a failure is a value without any identifier.
\<close>

theorem ParseTopicID_codec:
  "(canonicalTopicPath P \<longrightarrow> (\<exists>tid. ParseTopicID P = Inr tid \<and> TopicID tid = P)) \<and>
   (length (Split P CHR ''/'') \<noteq> 11 \<longrightarrow> ParseTopicID P = Inl (MalformedIdentifierError P)) \<and>
   (wrongKeyword P \<longrightarrow> ParseTopicID P = Inl (MalformedIdentifierError P)) \<and>
   (emptyValue P \<longrightarrow> ParseTopicID P = Inl (MalformedIdentifierError P)) \<and>
   (\<forall>e. ParseTopicID P = Inl e \<longrightarrow> e = MalformedIdentifierError P)"
proof (intro conjI impI allI)
  assume "canonicalTopicPath P"
  then show "\<exists>tid. ParseTopicID P = Inr tid \<and> TopicID tid = P"
    by (rule ParseTopicID_canonical)
next
  assume "length (Split P CHR ''/'') \<noteq> 11"
  then show "ParseTopicID P = Inl (MalformedIdentifierError P)"
    by (simp add: ParseTopicID_def Let_def)
next
  assume "wrongKeyword P"
  then show "ParseTopicID P = Inl (MalformedIdentifierError P)"
    by (auto simp: ParseTopicID_def wrongKeyword_def Let_def)
next
  assume "emptyValue P"
  then show "ParseTopicID P = Inl (MalformedIdentifierError P)"
    by (auto simp: ParseTopicID_def emptyValue_def Let_def)
next
  fix e
  assume "ParseTopicID P = Inl e"
  then show "e = MalformedIdentifierError P"
    by (rule ParseTopicID_Inl)
qed

theorem ParseTopicID_codec_witness:
  "canonicalTopicPath
     ''/subscriptions/sub-0/resourceGroups/Rg-One/providers/Microsoft.ServiceBus/namespaces/ns-a/topics/Topic-A'' \<and>
   (\<exists>tid. ParseTopicID
       ''/subscriptions/sub-0/resourceGroups/Rg-One/providers/Microsoft.ServiceBus/namespaces/ns-a/topics/Topic-A'' = Inr tid \<and>
       TopicID tid =
       ''/subscriptions/sub-0/resourceGroups/Rg-One/providers/Microsoft.ServiceBus/namespaces/ns-a/topics/Topic-A'') \<and>
   length (Split ''/subscriptions/sub-0'' CHR ''/'') \<noteq> 11 \<and>
   ParseTopicID ''/subscriptions/sub-0'' = Inl (MalformedIdentifierError ''/subscriptions/sub-0'') \<and>
   wrongKeyword
     ''/subscriptions/sub-0/resourceGroups/rg1/providers/Microsoft.ServiceBus/namespaces/ns-a/queues/q1'' \<and>
   ParseTopicID
     ''/subscriptions/sub-0/resourceGroups/rg1/providers/Microsoft.ServiceBus/namespaces/ns-a/queues/q1'' =
   Inl (MalformedIdentifierError
     ''/subscriptions/sub-0/resourceGroups/rg1/providers/Microsoft.ServiceBus/namespaces/ns-a/queues/q1'') \<and>
   emptyValue
     ''/subscriptions//resourceGroups/rg1/providers/Microsoft.ServiceBus/namespaces/ns-a/topics/t1'' \<and>
   ParseTopicID
     ''/subscriptions//resourceGroups/rg1/providers/Microsoft.ServiceBus/namespaces/ns-a/topics/t1'' =
   Inl (MalformedIdentifierError
     ''/subscriptions//resourceGroups/rg1/providers/Microsoft.ServiceBus/namespaces/ns-a/topics/t1'')"
proof -
  have a: "canonicalTopicPath
     ''/subscriptions/sub-0/resourceGroups/Rg-One/providers/Microsoft.ServiceBus/namespaces/ns-a/topics/Topic-A''"
    by code_simp
  have b: "length (Split ''/subscriptions/sub-0'' CHR ''/'') \<noteq> 11"
    by code_simp
  have c: "wrongKeyword
     ''/subscriptions/sub-0/resourceGroups/rg1/providers/Microsoft.ServiceBus/namespaces/ns-a/queues/q1''"
    by code_simp
  have d: "emptyValue
     ''/subscriptions//resourceGroups/rg1/providers/Microsoft.ServiceBus/namespaces/ns-a/topics/t1''"
    by code_simp
  show ?thesis
    using a b c d ParseTopicID_codec by blast
qed

section \<open>The identifier that the data source reads\<close>

text \<open>
  Without a \<open>topic_id\<close> the three names keep their zero value: the identifier passed to
  \<open>client.Get\<close> has an empty resource group, namespace and topic, whatever the legacy
  fields hold.
\<close>

lemma dataSourceServiceBusSubscriptionRead_id_no_topic_id:
  "GetString d ''topic_id'' = [] \<Longrightarrow>
   dataSourceServiceBusSubscriptionRead_id meta d =
     Inr (NewSubscriptions2ID (Account_SubscriptionId meta) [] [] [] (GetString d ''name''))"
  by (simp add: dataSourceServiceBusSubscriptionRead_id_def)

text \<open>
  C1 fails on the code. For the configuration \<open>legacyConfig\<close>, which has no \<open>topic_id\<close>
  and the legacy fields \<open>rg1\<close>, \<open>ns1\<close> and \<open>topic1\<close>, before version 5.0, the identifier
  built for \<open>client.Get\<close> has none of the three values, and the ID stored after a
  successful \<open>Get\<close> is the path with three empty segments.
\<close>

theorem dataSourceServiceBusSubscriptionRead_legacy_fields_unused:
  "\<not> FivePointOh preFiveMeta \<and>
   GetString legacyConfig ''topic_id'' = [] \<and>
   GetString legacyConfig ''resource_group_name'' = ''rg1'' \<and>
   GetString legacyConfig ''namespace_name'' = ''ns1'' \<and>
   GetString legacyConfig ''topic_name'' = ''topic1'' \<and>
   dataSourceServiceBusSubscriptionRead_id preFiveMeta legacyConfig =
     Inr (NewSubscriptions2ID ''sub-0'' [] [] [] ''sub1'') \<and>
   dataSourceServiceBusSubscriptionRead_id preFiveMeta legacyConfig \<noteq>
     Inr (NewSubscriptions2ID ''sub-0'' ''rg1'' ''ns1'' ''topic1'' ''sub1'') \<and>
   Id' (snd (dataSourceServiceBusSubscriptionRead preFiveMeta legacyConfig)) =
     ''/subscriptions/sub-0/resourceGroups//providers/Microsoft.ServiceBus/namespaces//topics//subscriptions/sub1''"
proof -
  have g: "GetString legacyConfig ''topic_id'' = []"
      "GetString legacyConfig ''resource_group_name'' = ''rg1''"
      "GetString legacyConfig ''namespace_name'' = ''ns1''"
      "GetString legacyConfig ''topic_name'' = ''topic1''"
      "GetString legacyConfig ''name'' = ''sub1''"
    by (simp_all add: legacyConfig_def GetString_def)
  have i: "dataSourceServiceBusSubscriptionRead_id preFiveMeta legacyConfig =
     Inr (NewSubscriptions2ID ''sub-0'' [] [] [] ''sub1'')"
    using dataSourceServiceBusSubscriptionRead_id_no_topic_id [OF g(1), of preFiveMeta] g(5)
    by (simp add: preFiveMeta_def)
  have "Id' (snd (dataSourceServiceBusSubscriptionRead preFiveMeta legacyConfig)) =
     Subscriptions2ID (NewSubscriptions2ID ''sub-0'' [] [] [] ''sub1'')"
    by (simp add: dataSourceServiceBusSubscriptionRead_def i)
       (simp add: preFiveMeta_def SetId_def)
  then show ?thesis
    using g i
    by (simp add: NewSubscriptions2ID_def Subscriptions2ID_def TopicID_def preFiveMeta_def)
qed

text \<open>
  C2: when \<open>topic_id\<close> is given and parses, the identifier passed to \<open>client.Get\<close> has
  the resource group, the namespace and the topic of the parsed \<open>topic_id\<close>, whatever
  the legacy fields hold, and after a successful \<open>Get\<close> its path is the stored ID.
\<close>

theorem dataSourceServiceBusSubscriptionRead_topic_id_wins:
  assumes "ParseTopicID (GetString d ''topic_id'') = Inr topicId"
  shows "dataSourceServiceBusSubscriptionRead_id meta d =
           Inr (NewSubscriptions2ID (Account_SubscriptionId meta) (ResourceGroupName topicId)
                  (NamespaceName topicId) (TopicName topicId) (GetString d ''name'')) \<and>
         (\<forall>existing.
            SubscriptionsClient_Get meta
              (NewSubscriptions2ID (Account_SubscriptionId meta) (ResourceGroupName topicId)
                 (NamespaceName topicId) (TopicName topicId) (GetString d ''name'')) =
              (existing, None) \<longrightarrow>
            Id' (snd (dataSourceServiceBusSubscriptionRead meta d)) =
              Subscriptions2ID
                (NewSubscriptions2ID (Account_SubscriptionId meta) (ResourceGroupName topicId)
                   (NamespaceName topicId) (TopicName topicId) (GetString d ''name'')))"
proof -
  let ?sid = "NewSubscriptions2ID (Account_SubscriptionId meta) (ResourceGroupName topicId)
                (NamespaceName topicId) (TopicName topicId) (GetString d ''name'')"
  have "GetString d ''topic_id'' \<noteq> []"
    using assms ParseTopicID_Nil by auto
  moreover have "SubscriptionId topicId \<noteq> []"
    using ParseTopicID_Inr_fields [OF assms] by simp
  ultimately have i: "dataSourceServiceBusSubscriptionRead_id meta d = Inr ?sid"
    using assms by (simp add: dataSourceServiceBusSubscriptionRead_id_def)
  have "Id' (snd (dataSourceServiceBusSubscriptionRead meta d)) = Subscriptions2ID ?sid"
    if "SubscriptionsClient_Get meta ?sid = (existing, None)" for existing
    using that
    by (simp add: dataSourceServiceBusSubscriptionRead_def i SetId_def Let_def split: option.splits)
  with i show ?thesis
    by blast
qed

theorem dataSourceServiceBusSubscriptionRead_topic_id_wins_witness:
  "ParseTopicID (GetString bothConfig ''topic_id'') =
     Inr \<lparr>SubscriptionId = ''sub-0'', ResourceGroupName = ''rg-a'',
          NamespaceName = ''ns-a'', TopicName = ''topic-a''\<rparr> \<and>
   GetString bothConfig ''resource_group_name'' = ''rg-b'' \<and>
   GetString bothConfig ''namespace_name'' = ''ns-b'' \<and>
   GetString bothConfig ''topic_name'' = ''topic-b'' \<and>
   dataSourceServiceBusSubscriptionRead_id preFiveMeta bothConfig =
     Inr (NewSubscriptions2ID ''sub-0'' ''rg-a'' ''ns-a'' ''topic-a'' ''sub1'')"
proof -
  have t: "GetString bothConfig ''topic_id'' =
      ''/subscriptions/sub-0/resourceGroups/rg-a/providers/Microsoft.ServiceBus/namespaces/ns-a/topics/topic-a''"
    by (simp add: bothConfig_def GetString_def)
  have "ParseTopicID
      ''/subscriptions/sub-0/resourceGroups/rg-a/providers/Microsoft.ServiceBus/namespaces/ns-a/topics/topic-a'' =
     Inr \<lparr>SubscriptionId = ''sub-0'', ResourceGroupName = ''rg-a'',
          NamespaceName = ''ns-a'', TopicName = ''topic-a''\<rparr>"
    by code_simp
  with t have p: "ParseTopicID (GetString bothConfig ''topic_id'') =
     Inr \<lparr>SubscriptionId = ''sub-0'', ResourceGroupName = ''rg-a'',
          NamespaceName = ''ns-a'', TopicName = ''topic-a''\<rparr>"
    by simp
  have g: "GetString bothConfig ''resource_group_name'' = ''rg-b''"
      "GetString bothConfig ''namespace_name'' = ''ns-b''"
      "GetString bothConfig ''topic_name'' = ''topic-b''"
      "GetString bothConfig ''name'' = ''sub1''"
    by (simp_all add: bothConfig_def GetString_def)
  show ?thesis
    using p g dataSourceServiceBusSubscriptionRead_topic_id_wins [OF p, of preFiveMeta]
    by (simp add: preFiveMeta_def)
qed

section \<open>Reading a Purview account that is gone\<close>

text \<open>
  C10: when the stored ID parses and \<open>client.Get\<close> fails, a not-found response makes
  \<open>resourcePurviewAccountRead\<close> clear the stored ID and return no error; any other
  failure of \<open>Get\<close> returns an error and leaves the resource data, the stored ID with
  it, as it was. A failure of \<open>ListKeys\<close> after a successful \<open>Get\<close> returns an error and
  leaves the stored ID as it was.
\<close>

theorem resourcePurviewAccountRead_not_found:
  assumes "AccountID meta (Id' d) = Inr aid"
  shows "(\<forall>resp err.
            AccountsClient_Get meta (ResourceGroup aid) (Name aid) = (resp, Some err) \<longrightarrow>
            (if ResponseWasNotFound meta (Response resp)
             then resourcePurviewAccountRead meta d = (None, SetId d [])
             else \<exists>e. resourcePurviewAccountRead meta d = (Some e, d))) \<and>
         (\<forall>resp keys err.
            AccountsClient_Get meta (ResourceGroup aid) (Name aid) = (resp, None) \<and>
            AccountsClient_ListKeys meta (ResourceGroup aid) (Name aid) = (keys, Some err) \<longrightarrow>
            (\<exists>e d'. resourcePurviewAccountRead meta d = (Some e, d') \<and> Id' d' = Id' d))"
proof (intro conjI allI impI)
  fix resp err
  assume "AccountsClient_Get meta (ResourceGroup aid) (Name aid) = (resp, Some err)"
  then show "if ResponseWasNotFound meta (Response resp)
             then resourcePurviewAccountRead meta d = (None, SetId d [])
             else \<exists>e. resourcePurviewAccountRead meta d = (Some e, d)"
    using assms by (simp add: resourcePurviewAccountRead_def)
next
  fix resp keys err
  assume a: "AccountsClient_Get meta (ResourceGroup aid) (Name aid) = (resp, None) \<and>
            AccountsClient_ListKeys meta (ResourceGroup aid) (Name aid) = (keys, Some err)"
  define d1 where "d1 = Set' (Set' (Set' (Set' d ''name'' (StringV (Name aid)))
      ''resource_group_name'' (StringV (ResourceGroup aid)))
      ''location'' (StringV (NormalizeNilable meta (Location resp))))
      ''sku_name'' (StringV (flattenPurviewSkuName (Sku resp)))"
  have id1: "Id' d1 = Id' d"
    by (simp add: d1_def)
  obtain r d2 where s: "Set d1 ''identity'' (flattenPurviewAccountIdentity (Identity resp)) = (r, d2)"
    by (cases "Set d1 ''identity'' (flattenPurviewAccountIdentity (Identity resp))")
  have id2: "Id' d2 = Id' d"
    using Id_Set [of d1 "''identity''" "flattenPurviewAccountIdentity (Identity resp)"] s id1
    by simp
  show "\<exists>e d'. resourcePurviewAccountRead meta d = (Some e, d') \<and> Id' d' = Id' d"
    using assms a s id2
    by (cases r) (simp_all add: resourcePurviewAccountRead_def Let_def d1_def [symmetric])
qed

theorem resourcePurviewAccountRead_not_found_witness:
  "resourcePurviewAccountRead (failingMeta 404) storedAccount = (None, SetId storedAccount []) \<and>
   Id' (snd (resourcePurviewAccountRead (failingMeta 404) storedAccount)) = [] \<and>
   (\<exists>e. resourcePurviewAccountRead (failingMeta 500) storedAccount = (Some e, storedAccount)) \<and>
   (\<exists>e d'. resourcePurviewAccountRead keysFailingMeta storedAccount = (Some e, d') \<and>
            Id' d' = Id' storedAccount)"
proof -
  let ?aid = "\<lparr>SubscriptionId' = ''sub-0'', ResourceGroup = ''rg1'', Name = ''acc1''\<rparr>"
  have p: "AccountID (failingMeta n) (Id' storedAccount) = Inr ?aid" for n
    by (simp add: failingMeta_def)
  have q: "AccountID keysFailingMeta (Id' storedAccount) = Inr ?aid"
    by (simp add: keysFailingMeta_def failingMeta_def)
  have g: "AccountsClient_Get (failingMeta n) (ResourceGroup ?aid) (Name ?aid) =
      (goneAccount\<lparr>Response := Some \<lparr>StatusCode = n\<rparr>\<rparr>, Some (RemoteError ''get failed''))" for n
    by (simp add: failingMeta_def)
  have nf: "ResponseWasNotFound (failingMeta n) (Response (goneAccount\<lparr>Response := Some \<lparr>StatusCode = n\<rparr>\<rparr>))
      \<longleftrightarrow> n = 404" for n
    by (simp add: failingMeta_def statusNotFound_def)
  have k: "AccountsClient_Get keysFailingMeta (ResourceGroup ?aid) (Name ?aid) =
        (goneAccount\<lparr>Response := Some \<lparr>StatusCode = 200\<rparr>\<rparr>, None) \<and>
      AccountsClient_ListKeys keysFailingMeta (ResourceGroup ?aid) (Name ?aid) =
        (\<lparr>AtlasKafkaPrimaryEndpoint = None, AtlasKafkaSecondaryEndpoint = None\<rparr>,
         Some (RemoteError ''keys failed''))"
    by (simp add: keysFailingMeta_def failingMeta_def)
  have a: "resourcePurviewAccountRead (failingMeta 404) storedAccount = (None, SetId storedAccount [])"
    using resourcePurviewAccountRead_not_found [OF p [of 404]] g [of 404] nf [of 404] by simp
  have b: "\<exists>e. resourcePurviewAccountRead (failingMeta 500) storedAccount = (Some e, storedAccount)"
    using resourcePurviewAccountRead_not_found [OF p [of 500]] g [of 500] nf [of 500] by simp
  have c: "\<exists>e d'. resourcePurviewAccountRead keysFailingMeta storedAccount = (Some e, d') \<and>
            Id' d' = Id' storedAccount"
    using resourcePurviewAccountRead_not_found [OF q] k by blast
  show ?thesis
    using a b c by (simp add: SetId_def)
qed

end
